theory Spec2Isabelle
  imports Complex_Main "HOL-Library.Multiset"
begin

section \<open>Tables and errors\<close>

text \<open>
  The resampling module of PvsNP (\<^verbatim>\<open>analysis/resampling.py\<close>) works on pandas tables.
  A table is modelled by its row index (one label per row) and its ordered, named
  columns; the cells of the activity, null-distribution and observed-statistic tables
  are numbers. Floating-point cells are modelled as exact reals (no rounding, no NaN
  cell), and column names are taken to be unique, as they are for every table the
  module builds: a column is looked up by the first column of that name.

  Every exception the Python raises is a value \<open>Inl e\<close> of the result. The module
  defines no exception of its own and checks none of its inputs: what it raises are
  the exceptions of Python, pandas and numpy. \<open>InvalidInput\<close> stands for the input
  error that the specification names; no statement of the module raises it.
\<close>

datatype label = IntLabel int | StrLabel string

record 'a dataframe =
  index :: "label list"
  cols :: "(string \<times> 'a list) list"

datatype error = ZeroDivisionError | KeyError | IndexError | ValueError | InvalidInput

definition columns :: "'a dataframe \<Rightarrow> string list" where
  "columns df = map fst (cols df)"

text \<open>\<^verbatim>\<open>df[name]\<close> and \<^verbatim>\<open>df.loc[:, name]\<close>: the column, or KeyError.\<close>

definition get_column :: "'a dataframe \<Rightarrow> string \<Rightarrow> error + 'a list" where
  "get_column df name =
     (case map_of (cols df) name of None \<Rightarrow> Inl KeyError | Some vs \<Rightarrow> Inr vs)"

text \<open>\<^verbatim>\<open>series.values[0]\<close>: the first cell by position, or IndexError.\<close>

definition values_0 :: "'a list \<Rightarrow> error + 'a" where
  "values_0 vs = (case vs of [] \<Rightarrow> Inl IndexError | v # _ \<Rightarrow> Inr v)"

text \<open>
  \<^verbatim>\<open>df[name]['d']\<close>: the cells of the column whose row label is the string \<^verbatim>\<open>d\<close>.
  pandas raises KeyError when the column or the label is absent, gives the cell when
  one row carries the label, and a Series of the cells when several rows do.
\<close>

definition loc_d :: "'a dataframe \<Rightarrow> string \<Rightarrow> error + 'a list" where
  "loc_d df name =
     (case get_column df name of
        Inl e \<Rightarrow> Inl e
      | Inr vs \<Rightarrow>
          (case map snd (filter (\<lambda>(l, v). l = StrLabel ''d'') (zip (index df) vs)) of
             [] \<Rightarrow> Inl KeyError
           | ds \<Rightarrow> Inr ds))"

section \<open>The two-sided empirical p-value\<close>

text \<open>
  \<^verbatim>\<open>
  return (1 / len(resampled_df.index)) * len(resampled_df.loc[:, neuron].loc[
      abs(resampled_df[neuron]) >= abs(original_D_hat_df[neuron].values[0])])
  \<close>
  Python evaluates the left factor first, so a table with no rows raises
  ZeroDivisionError before any column is looked up; then the null column is looked
  up, then the observed column and its first cell.
\<close>

definition compute_two_side_p_val ::
  "real dataframe \<Rightarrow> real dataframe \<Rightarrow> string \<Rightarrow> error + real" where
  "compute_two_side_p_val resampled_df original_D_hat_df neuron =
     (if length (index resampled_df) = 0 then Inl ZeroDivisionError
      else case get_column resampled_df neuron of
        Inl e \<Rightarrow> Inl e
      | Inr null_col \<Rightarrow>
          (case get_column original_D_hat_df neuron of
             Inl e \<Rightarrow> Inl e
           | Inr obs_col \<Rightarrow>
               (case values_0 obs_col of
                  Inl e \<Rightarrow> Inl e
                | Inr d \<Rightarrow>
                    Inr ((1 / real (length (index resampled_df))) *
                         real (length (filter (\<lambda>v. \<bar>v\<bar> \<ge> \<bar>d\<bar>) null_col))))))"

text \<open>The observed statistic of a neuron as the p-value reads it:
  \<^verbatim>\<open>original_D_hat_df[neuron].values[0]\<close>.\<close>

definition observed_first :: "real dataframe \<Rightarrow> string \<Rightarrow> error + real" where
  "observed_first original_D_hat_df neuron =
     (case get_column original_D_hat_df neuron of
        Inl e \<Rightarrow> Inl e
      | Inr obs_col \<Rightarrow> values_0 obs_col)"

section \<open>The event count\<close>

text \<open>\<^verbatim>\<open>len(dataframe.loc[:, neuron][dataframe[neuron] != 0])\<close>\<close>

definition get_num_of_events :: "real dataframe \<Rightarrow> string \<Rightarrow> error + nat" where
  "get_num_of_events dataframe neuron =
     (case get_column dataframe neuron of
        Inl e \<Rightarrow> Inl e
      | Inr vs \<Rightarrow> Inr (length (filter (\<lambda>v. v \<noteq> 0) vs)))"

section \<open>Classification\<close>

text \<open>
  The result dictionary is a map from neuron names to labels. The first loop of both
  strategies runs over the columns of the activity table:
  \<^verbatim>\<open>
  for neuron in dataframe.columns:
      if get_num_of_events(dataframe, neuron) < threshold:
          if not neuron in classified_neurons:
              classified_neurons[neuron] = "unclassified"
  \<close>
\<close>

type_synonym labels = "string \<rightharpoonup> string"

definition set_if_absent :: "labels \<Rightarrow> string \<Rightarrow> string \<Rightarrow> labels" where
  "set_if_absent classified_neurons neuron l =
     (if classified_neurons neuron = None then classified_neurons(neuron \<mapsto> l)
      else classified_neurons)"

fun mark_unclassified ::
  "real dataframe \<Rightarrow> int \<Rightarrow> string list \<Rightarrow> labels \<Rightarrow> error + labels" where
  "mark_unclassified dataframe threshold [] classified_neurons = Inr classified_neurons"
| "mark_unclassified dataframe threshold (neuron # rest) classified_neurons =
     (case get_num_of_events dataframe neuron of
        Inl e \<Rightarrow> Inl e
      | Inr k \<Rightarrow>
          mark_unclassified dataframe threshold rest
            (if int k < threshold
             then set_if_absent classified_neurons neuron ''unclassified''
             else classified_neurons))"

text \<open>
  The second loop of the non-parametric strategy computes the p-value of every column
  of the null table, and only then looks whether the neuron has a label already:
  \<^verbatim>\<open>
  for neuron in resampled_df.columns:
      if compute_two_side_p_val(resampled_df, real_diff_df, neuron) <= p_value:
          if not neuron in classified_neurons:
              classified_neurons[neuron] = "selective"
      else:
          if not neuron in classified_neurons:
              classified_neurons[neuron] = "not-selective"
  \<close>
\<close>

fun label_by_p_value ::
  "real dataframe \<Rightarrow> real dataframe \<Rightarrow> real \<Rightarrow> string list \<Rightarrow> labels \<Rightarrow> error + labels" where
  "label_by_p_value resampled_df real_diff_df p_value [] classified_neurons =
     Inr classified_neurons"
| "label_by_p_value resampled_df real_diff_df p_value (neuron # rest) classified_neurons =
     (case compute_two_side_p_val resampled_df real_diff_df neuron of
        Inl e \<Rightarrow> Inl e
      | Inr p \<Rightarrow>
          label_by_p_value resampled_df real_diff_df p_value rest
            (if p \<le> p_value
             then set_if_absent classified_neurons neuron ''selective''
             else set_if_absent classified_neurons neuron ''not-selective''))"

definition classify_neurons_non_parametrically ::
  "real dataframe \<Rightarrow> real dataframe \<Rightarrow> real dataframe \<Rightarrow> real \<Rightarrow> int \<Rightarrow> error + labels" where
  "classify_neurons_non_parametrically dataframe resampled_df real_diff_df p_value threshold =
     (case mark_unclassified dataframe threshold (columns dataframe) Map.empty of
        Inl e \<Rightarrow> Inl e
      | Inr classified_neurons \<Rightarrow>
          label_by_p_value resampled_df real_diff_df p_value (columns resampled_df)
            classified_neurons)"

text \<open>
  \<^verbatim>\<open>np.percentile(a, q)\<close> is numpy's, with its default linear interpolation: \<open>q\<close> outside
  \<open>[0, 100]\<close> is refused with ValueError before the data is looked at; on the sorted
  data the virtual position \<open>q / 100 * (n - 1)\<close> is interpolated between its two
  neighbours. An empty array has no last element and numpy raises on it.
\<close>

definition np_percentile :: "real list \<Rightarrow> real \<Rightarrow> error + real" where
  "np_percentile a q =
     (if q < 0 \<or> 100 < q then Inl ValueError
      else if a = [] then Inl IndexError
      else
        let s = sort a;
            n = length s;
            pos = q / 100 * real (n - 1);
            below = nat \<lfloor>pos\<rfloor>;
            above = min (below + 1) (n - 1)
        in Inr (s ! below + (s ! above - s ! below) * (pos - real below)))"

text \<open>
  \<^verbatim>\<open>
  if real_d_df[neuron]['d'] >= np.percentile(resampled_df[neuron], high_tail):
      return behavior_name
  elif real_d_df[neuron]['d'] <= np.percentile(resampled_df[neuron], low_tail):
      return "Non-" + behavior_name
  else:
      return "Not-selective"
  \<close>
  The left operand is evaluated first. When several rows are labelled \<^verbatim>\<open>d\<close> the
  comparison yields a Series, whose truth value \<^verbatim>\<open>if\<close> refuses with ValueError.
\<close>

definition two_tailed_neuron_classification ::
  "real dataframe \<Rightarrow> real dataframe \<Rightarrow> string \<Rightarrow> string \<Rightarrow> real \<Rightarrow> real \<Rightarrow> error + string" where
  "two_tailed_neuron_classification resampled_df real_d_df neuron behavior_name high_tail low_tail =
     (case loc_d real_d_df neuron of
        Inl e \<Rightarrow> Inl e
      | Inr ds \<Rightarrow>
          (case get_column resampled_df neuron of
             Inl e \<Rightarrow> Inl e
           | Inr null_col \<Rightarrow>
               (case np_percentile null_col high_tail of
                  Inl e \<Rightarrow> Inl e
                | Inr high \<Rightarrow>
                    (case ds of
                       [d] \<Rightarrow>
                         if d \<ge> high then Inr behavior_name
                         else
                           (case np_percentile null_col low_tail of
                              Inl e \<Rightarrow> Inl e
                            | Inr low \<Rightarrow>
                                if d \<le> low then Inr (''Non-'' @ behavior_name)
                                else Inr ''Not-selective'')
                     | _ \<Rightarrow> Inl ValueError))))"

text \<open>
  The second loop of the parametric strategy looks for the label first:
  \<^verbatim>\<open>
  for neuron in resampled_df.columns:
      if not neuron in classified_neurons:
          classified_neurons[neuron] = two_tailed_neuron_classification(...)
  \<close>
\<close>

fun label_by_tails ::
  "real dataframe \<Rightarrow> real dataframe \<Rightarrow> string \<Rightarrow> real \<Rightarrow> real \<Rightarrow> string list \<Rightarrow> labels
     \<Rightarrow> error + labels" where
  "label_by_tails resampled_df real_diff_df behavior_name high_tail low_tail []
     classified_neurons = Inr classified_neurons"
| "label_by_tails resampled_df real_diff_df behavior_name high_tail low_tail (neuron # rest)
     classified_neurons =
     (if classified_neurons neuron = None
      then
        (case two_tailed_neuron_classification resampled_df real_diff_df neuron behavior_name
                high_tail low_tail of
           Inl e \<Rightarrow> Inl e
         | Inr l \<Rightarrow>
             label_by_tails resampled_df real_diff_df behavior_name high_tail low_tail rest
               (classified_neurons(neuron \<mapsto> l)))
      else
        label_by_tails resampled_df real_diff_df behavior_name high_tail low_tail rest
          classified_neurons)"

definition classify_neurons_parametrically ::
  "real dataframe \<Rightarrow> real dataframe \<Rightarrow> real dataframe \<Rightarrow> string \<Rightarrow> real \<Rightarrow> real \<Rightarrow> int
     \<Rightarrow> error + labels" where
  "classify_neurons_parametrically dataframe resampled_df real_diff_df behavior_name high_tail
     low_tail threshold =
     (case mark_unclassified dataframe threshold (columns dataframe) Map.empty of
        Inl e \<Rightarrow> Inl e
      | Inr classified_neurons \<Rightarrow>
          label_by_tails resampled_df real_diff_df behavior_name high_tail low_tail
            (columns resampled_df) classified_neurons)"

text \<open>A neuron is removed by the event-count filter when it is a column of the
  activity table with fewer nonzero cells than the threshold.\<close>

definition event_filtered :: "real dataframe \<Rightarrow> int \<Rightarrow> string \<Rightarrow> bool" where
  "event_filtered dataframe threshold neuron =
     (case get_num_of_events dataframe neuron of
        Inl e \<Rightarrow> False
      | Inr k \<Rightarrow> int k < threshold)"

section \<open>Example tables\<close>

definition null_A :: "real dataframe" where
  "null_A = \<lparr>index = map IntLabel [0, 1, 2, 3, 4],
             cols = [(''A'', [5, -5, 1, -7, 2])]\<rparr>"

definition null_empty :: "real dataframe" where
  "null_empty = \<lparr>index = [], cols = [(''A'', [])]\<rparr>"

definition observed_A :: "real \<Rightarrow> real dataframe" where
  "observed_A d = \<lparr>index = [StrLabel ''d''], cols = [(''A'', [d])]\<rparr>"

definition activity_AB :: "real dataframe" where
  "activity_AB = \<lparr>index = map IntLabel [0, 1, 2, 3],
                  cols = [(''A'', [1, 2, 0, 3]), (''B'', [0, 0, 1, 0])]\<rparr>"

definition null_AB :: "real dataframe" where
  "null_AB = \<lparr>index = map IntLabel [0, 1, 2, 3, 4],
              cols = [(''A'', [5, -5, 1, -7, 2]), (''B'', [1, 1, 1, 1, 1])]\<rparr>"

definition observed_AB :: "label \<Rightarrow> real \<Rightarrow> real dataframe" where
  "observed_AB l d = \<lparr>index = [l], cols = [(''A'', [d]), (''B'', [1])]\<rparr>"

definition observed_only_A :: "real dataframe" where
  "observed_only_A = \<lparr>index = [StrLabel ''d''], cols = [(''A'', [-7])]\<rparr>"

section \<open>The shuffle\<close>

text \<open>
  \<^verbatim>\<open>df.loc[:, first_col:last_col]\<close> selects by label, both ends included: the positions
  of the two columns, or KeyError when one of them is no column of the table.
\<close>

definition col_slice :: "string list \<Rightarrow> string \<Rightarrow> string \<Rightarrow> error + nat \<times> nat" where
  "col_slice names first_col last_col =
     (if first_col \<in> set names \<and> last_col \<in> set names
      then Inr (length (takeWhile (\<lambda>n. n \<noteq> first_col) names),
                length (takeWhile (\<lambda>n. n \<noteq> last_col) names))
      else Inl KeyError)"

text \<open>
  \<^verbatim>\<open>
  neuron_and_behavior_df.loc[:, first_col:last_col] =
      neuron_and_behavior_df.loc[:, first_col:last_col].sample(frac=1).reset_index(drop=True)
  \<close>
  \<^verbatim>\<open>sample(frac=1)\<close> returns the rows of the block in a random order \<open>draw\<close> (a
  permutation of the row positions, the one thing the random source decides), and
  \<^verbatim>\<open>reset_index(drop=True)\<close> labels them \<open>0, 1, ...\<close>. The assignment aligns on the row
  labels: the row of the table labelled with the integer \<open>i\<close> receives row \<open>i\<close> of the
  sample, and a row whose label is no label of the sample receives missing values.
  A cell of the combined table is therefore \<open>Some v\<close> or \<open>None\<close>, the missing value.
  Columns outside the slice are not touched, and neither is the index.
\<close>

definition aligned_cell :: "nat list \<Rightarrow> 'a option list \<Rightarrow> label \<Rightarrow> 'a option" where
  "aligned_cell draw vs l =
     (case l of
        IntLabel i \<Rightarrow>
          if 0 \<le> i \<and> nat i < length draw \<and> draw ! nat i < length vs
          then vs ! (draw ! nat i) else None
      | StrLabel s \<Rightarrow> None)"

definition permute_block ::
  "nat \<Rightarrow> nat \<Rightarrow> nat list \<Rightarrow> 'a option dataframe \<Rightarrow> 'a option dataframe" where
  "permute_block lo hi draw df =
     df\<lparr>cols := map (\<lambda>(k, (name, vs)).
                       if lo \<le> k \<and> k \<le> hi
                       then (name, map (aligned_cell draw vs) (index df))
                       else (name, vs))
                 (enumerate 0 (cols df))\<rparr>"

text \<open>
  \<^verbatim>\<open>shuffled_df.loc[index] = row\<close> with a row of one value per column: the row
  labelled \<open>index\<close> is overwritten if there is one and appended otherwise; a row of
  another length is refused with ValueError.
\<close>

definition set_row :: "real dataframe \<Rightarrow> label \<Rightarrow> real list \<Rightarrow> error + real dataframe" where
  "set_row df l row =
     (if length row \<noteq> length (cols df) then Inl ValueError
      else if l \<in> set (index df)
      then Inr (df\<lparr>cols := map (\<lambda>((name, vs), v).
                  (name, vs[length (takeWhile (\<lambda>k. k \<noteq> l) (index df)) := v]))
                (zip (cols df) row)\<rparr>)
      else Inr \<lparr>index = index df @ [l],
                cols = map (\<lambda>((name, vs), v). (name, vs @ [v])) (zip (cols df) row)\<rparr>)"

text \<open>
  The loop of \<open>shuffle_worker\<close>. \<open>compute_diff_rate\<close> is \<^verbatim>\<open>au.compute_diff_rate\<close> applied
  to the activity table and the two behaviours, a function of this repository that
  is not part of the module: it is a parameter and gives one value per neuron column.
  The combined table is one object for the whole loop, so every iteration starts from
  the table the iteration before left.
  \<^verbatim>\<open>
  for index in range(num_of_experiments):
      neuron_and_behavior_df.loc[:, first_col:last_col] = ...
      shuffled_df.loc[index] = au.compute_diff_rate(neuron_and_behavior_df,
                                   neuron_activity_df, behavior1, behavior2)
  \<close>
\<close>

fun shuffle_loop ::
  "('a option dataframe \<Rightarrow> real list) \<Rightarrow> (nat \<Rightarrow> nat list) \<Rightarrow> string \<Rightarrow> string \<Rightarrow> nat list
     \<Rightarrow> 'a option dataframe \<Rightarrow> real dataframe \<Rightarrow> error + 'a option dataframe \<times> real dataframe" where
  "shuffle_loop diff_rate draws first_col last_col [] neuron_and_behavior_df shuffled_df =
     Inr (neuron_and_behavior_df, shuffled_df)"
| "shuffle_loop diff_rate draws first_col last_col (i # rest) neuron_and_behavior_df
     shuffled_df =
     (case col_slice (columns neuron_and_behavior_df) first_col last_col of
        Inl e \<Rightarrow> Inl e
      | Inr (lo, hi) \<Rightarrow>
          (case set_row shuffled_df (IntLabel (int i))
                  (diff_rate (permute_block lo hi (draws i) neuron_and_behavior_df)) of
             Inl e \<Rightarrow> Inl e
           | Inr shuffled_df' \<Rightarrow>
               shuffle_loop diff_rate draws first_col last_col rest
                 (permute_block lo hi (draws i) neuron_and_behavior_df) shuffled_df'))"

text \<open>
  \<^verbatim>\<open>
  first_col = neuron_activity_df.columns[0]
  last_col = neuron_activity_df.columns[len(neuron_activity_df.columns)-1]
  shuffled_df = pd.DataFrame(columns=neuron_activity_df.columns)
  ...
  q.put(shuffled_df)
  \<close>
  The result is the table the worker puts on the queue; \<open>Inl e\<close> is a worker that
  died of an exception and put nothing. \<open>draws i\<close> is the order sampled in
  iteration \<open>i\<close>.
\<close>

definition shuffle_worker ::
  "('a option dataframe \<Rightarrow> real dataframe \<Rightarrow> 'b \<Rightarrow> 'b \<Rightarrow> real list) \<Rightarrow> (nat \<Rightarrow> nat list) \<Rightarrow> int
     \<Rightarrow> real dataframe \<Rightarrow> 'a option dataframe \<Rightarrow> 'b \<Rightarrow> 'b \<Rightarrow> error + real dataframe" where
  "shuffle_worker compute_diff_rate draws num_of_experiments neuron_activity_df
     neuron_and_behavior_df behavior1 behavior2 =
     (case columns neuron_activity_df of
        [] \<Rightarrow> Inl IndexError
      | first_col # _ \<Rightarrow>
          (case shuffle_loop
                  (\<lambda>t. compute_diff_rate t neuron_activity_df behavior1 behavior2) draws
                  first_col (last (columns neuron_activity_df))
                  [0..<nat num_of_experiments] neuron_and_behavior_df
                  \<lparr>index = [], cols = map (\<lambda>n. (n, [])) (columns neuron_activity_df)\<rparr> of
             Inl e \<Rightarrow> Inl e
           | Inr (t, shuffled_df) \<Rightarrow> Inr shuffled_df))"

text \<open>
  \<^verbatim>\<open>pd.concat(rets, ignore_index=True)\<close> for tables with the same columns, as the
  workers' tables are: the columns one after another and a fresh index
  \<open>0, 1, ...\<close>; no table at all is refused with ValueError.
\<close>

definition pd_concat :: "real dataframe list \<Rightarrow> error + real dataframe" where
  "pd_concat frames =
     (case frames of
        [] \<Rightarrow> Inl ValueError
      | f # _ \<Rightarrow>
          Inr \<lparr>index = map (\<lambda>i. IntLabel (int i))
                         [0..<sum_list (map (\<lambda>g. length (index g)) frames)],
               cols = map (\<lambda>name.
                        (name, concat (map (\<lambda>g. case map_of (cols g) name of
                                                  None \<Rightarrow> [] | Some vs \<Rightarrow> vs) frames)))
                      (columns f)\<rparr>)"

text \<open>
  \<open>shuffle\<close> starts one worker process per hardware execution unit
  (\<open>cpu_count\<close> is the value of \<^verbatim>\<open>os.cpu_count()\<close>), each on its own copy of the tables
  and with its own draws, takes as many results from the queue as there are workers
  and concatenates them in the order of arrival, \<open>arrival\<close>, a permutation of the
  workers that the scheduler decides. A worker that died puts nothing on the queue,
  and \<^verbatim>\<open>q.get()\<close> then blocks forever: the result \<open>None\<close>.
  \<^verbatim>\<open>
  experiments_per_worker = total_experiments // os.cpu_count()
  for _ in range(0, os.cpu_count()):
      p = Process(target=shuffle_worker, args=(q, experiments_per_worker, ...))
      ...
  for p in processes:
      ret = q.get()  # will block
      rets.append(ret)
  ...
  return pd.concat(rets, ignore_index=True)
  \<close>
\<close>

definition shuffle ::
  "('a option dataframe \<Rightarrow> real dataframe \<Rightarrow> 'b \<Rightarrow> 'b \<Rightarrow> real list) \<Rightarrow> (nat \<Rightarrow> nat \<Rightarrow> nat list)
     \<Rightarrow> nat \<Rightarrow> nat list \<Rightarrow> int \<Rightarrow> 'a option dataframe \<Rightarrow> real dataframe \<Rightarrow> 'b \<Rightarrow> 'b
     \<Rightarrow> (error + real dataframe) option" where
  "shuffle compute_diff_rate draws cpu_count arrival total_experiments neuron_and_behavior_df
     neuron_activity_df behavior1 behavior2 =
     (if cpu_count = 0 then Some (Inl ZeroDivisionError)
      else
        let experiments_per_worker = total_experiments div int cpu_count;
            results = map (\<lambda>w. shuffle_worker compute_diff_rate (draws w)
                              experiments_per_worker neuron_activity_df
                              neuron_and_behavior_df behavior1 behavior2)
                        [0..<cpu_count]
        in if list_ex isl results then None
           else Some (pd_concat (map (\<lambda>w. projr (results ! w)) arrival)))"

text \<open>The combined table after the first \<open>k\<close> iterations of the loop of a worker.\<close>

definition table_after ::
  "nat \<Rightarrow> nat \<Rightarrow> (nat \<Rightarrow> nat list) \<Rightarrow> 'a option dataframe \<Rightarrow> nat \<Rightarrow> 'a option dataframe" where
  "table_after lo hi draws neuron_and_behavior_df k =
     foldl (\<lambda>t i. permute_block lo hi (draws i) t) neuron_and_behavior_df [0..<k]"


text \<open>Row \<open>i\<close> of a table, by position.\<close>

definition row_at :: "'a dataframe \<Rightarrow> nat \<Rightarrow> 'a list" where
  "row_at df i = map (\<lambda>(name, vs). vs ! i) (cols df)"



text \<open>
  An example: one neuron \<open>A\<close> and one behaviour column over three timepoints, a rate
  function that reads the first cell of every neuron column, and a random source that
  draws the same rotation every time.
\<close>

definition activity_A :: "real dataframe" where
  "activity_A = \<lparr>index = map IntLabel [0, 1, 2], cols = [(''A'', [1, 2, 3])]\<rparr>"

definition combined_A :: "real option dataframe" where
  "combined_A = \<lparr>index = map IntLabel [0, 1, 2],
                 cols = [(''A'', [Some 1, Some 2, Some 3]),
                         (''open'', [Some 1, Some 0, Some 0])]\<rparr>"

definition first_cell_rate ::
  "real option dataframe \<Rightarrow> real dataframe \<Rightarrow> string \<Rightarrow> string \<Rightarrow> real list" where
  "first_cell_rate neuron_and_behavior_df neuron_activity_df behavior1 behavior2 =
     map (\<lambda>n. case get_column neuron_and_behavior_df n of
                 Inr (Some v # _) \<Rightarrow> v
               | _ \<Rightarrow> 0)
       (columns neuron_activity_df)"

definition rotate_draw :: "nat \<Rightarrow> nat list" where
  "rotate_draw i = [1, 2, 0]"

text \<open>The table a worker fills has \<open>k\<close> rows, labelled \<open>0, ..., k - 1\<close>, after
  \<open>k\<close> iterations.\<close>

definition rows_ok :: "real dataframe \<Rightarrow> nat \<Rightarrow> bool" where
  "rows_ok df k \<longleftrightarrow>
     index df = map (\<lambda>i. IntLabel (int i)) [0..<k] \<and> (\<forall>(name, vs) \<in> set (cols df). length vs = k)"

section \<open>Properties of the p-value\<close>

lemma compute_two_side_p_val_eq:
  assumes "index resampled_df \<noteq> []"
    and "get_column resampled_df neuron = Inr null_col"
    and "observed_first original_D_hat_df neuron = Inr d"
  shows "compute_two_side_p_val resampled_df original_D_hat_df neuron =
     Inr (real (length (filter (\<lambda>v. \<bar>v\<bar> \<ge> \<bar>d\<bar>) null_col)) /
          real (length (index resampled_df)))"
  using assms
  by (auto simp: compute_two_side_p_val_def observed_first_def split: sum.splits)

lemma count_ge_split:
  "length (filter (\<lambda>v. \<bar>v\<bar> \<ge> \<bar>d\<bar>) (vs :: real list)) =
   length (filter (\<lambda>v. \<bar>v\<bar> > \<bar>d\<bar>) vs) + length (filter (\<lambda>v. \<bar>v\<bar> = \<bar>d\<bar>) vs)"
  by (induction vs) auto

lemma count_ge_antimono:
  assumes "\<bar>d1\<bar> \<le> \<bar>d2 :: real\<bar>"
  shows "length (filter (\<lambda>v. \<bar>v\<bar> \<ge> \<bar>d2\<bar>) vs) \<le> length (filter (\<lambda>v. \<bar>v\<bar> \<ge> \<bar>d1\<bar>) vs)"
  using assms by (induction vs) auto

text \<open>
  C1. For a null table with at least one row, a neuron column present in it and an
  observed table that holds a first value \<open>d\<close> for the neuron,
  \<open>compute_two_side_p_val\<close> returns the number of cells \<open>v\<close> of the null column with
  \<open>\<bar>v\<bar> \<ge> \<bar>d\<bar>\<close> divided by the row count; the cells with \<open>\<bar>v\<bar> = \<bar>d\<bar>\<close> are part of
  that number.
\<close>

theorem C1_two_sided_p_value:
  assumes "index resampled_df \<noteq> []"
    and "get_column resampled_df neuron = Inr null_col"
    and "observed_first original_D_hat_df neuron = Inr d"
  shows "compute_two_side_p_val resampled_df original_D_hat_df neuron =
     Inr (real (length (filter (\<lambda>v. \<bar>v\<bar> \<ge> \<bar>d\<bar>) null_col)) /
          real (length (index resampled_df)))
   \<and> length (filter (\<lambda>v. \<bar>v\<bar> \<ge> \<bar>d\<bar>) null_col) =
       length (filter (\<lambda>v. \<bar>v\<bar> > \<bar>d\<bar>) null_col) +
       length (filter (\<lambda>v. \<bar>v\<bar> = \<bar>d\<bar>) null_col)"
  using compute_two_side_p_val_eq [OF assms] count_ge_split by blast

text \<open>At the observed value \<open>-5\<close> the null column \<open>5, -5, 1, -7, 2\<close> has one cell
  beyond it and two ties: the p-value is \<open>3 / 5\<close>.\<close>

theorem C1_two_sided_p_value_witness:
  "index null_A \<noteq> []
   \<and> get_column null_A ''A'' = Inr [5, -5, 1, -7, 2]
   \<and> observed_first (observed_A (-5)) ''A'' = Inr (-5)
   \<and> compute_two_side_p_val null_A (observed_A (-5)) ''A'' = Inr (3 / 5)
   \<and> length (filter (\<lambda>v. \<bar>v\<bar> > \<bar>-5 :: real\<bar>) [5, -5, 1, -7, 2]) = 1"
proof -
  have a: "index null_A \<noteq> []"
    by (simp add: null_A_def)
  have b: "get_column null_A ''A'' = Inr [5, -5, 1, -7, 2]"
    by (simp add: null_A_def get_column_def)
  have c: "observed_first (observed_A (-5)) ''A'' = Inr (-5)"
    by (simp add: observed_A_def observed_first_def get_column_def values_0_def)
  have "length (index null_A) = 5"
    by (simp add: null_A_def)
  with C1_two_sided_p_value [OF a b c] a b c show ?thesis
    by simp
qed

text \<open>
  C7 as the code has it. On a null table with no rows \<open>compute_two_side_p_val\<close> raises
  ZeroDivisionError, from the division \<^verbatim>\<open>1 / len(resampled_df.index)\<close> that it
  evaluates first, and returns no number, whatever the observed table and the neuron.
\<close>

theorem C7_empty_null_table_raises:
  assumes "index resampled_df = []"
  shows "compute_two_side_p_val resampled_df original_D_hat_df neuron = Inl ZeroDivisionError
    \<and> (\<forall>p. compute_two_side_p_val resampled_df original_D_hat_df neuron \<noteq> Inr p)"
  using assms by (simp add: compute_two_side_p_val_def)

theorem C7_empty_null_table_raises_witness:
  "index null_empty = []
   \<and> compute_two_side_p_val null_empty (observed_A 5) ''A'' = Inl ZeroDivisionError"
proof -
  have e: "index null_empty = []"
    by (simp add: null_empty_def)
  from C7_empty_null_table_raises [OF e] e show ?thesis
    by blast
qed

text \<open>
  C7 as stated fails in the kind of the error: the exception of the empty null table
  is the ZeroDivisionError of the division, not an input error; the function checks
  nothing before it divides.
\<close>

theorem C7_error_kind_counterexample:
  "index null_empty = []
   \<and> compute_two_side_p_val null_empty (observed_A 5) ''A'' = Inl ZeroDivisionError
   \<and> compute_two_side_p_val null_empty (observed_A 5) ''A'' \<noteq> Inl InvalidInput"
  by (simp add: compute_two_side_p_val_def null_empty_def)

text \<open>
  C9. For a fixed null table with at least one row and a neuron column of it, the
  p-value does not grow with the absolute value of the observed statistic: when
  \<open>\<bar>d1\<bar> \<le> \<bar>d2\<bar>\<close> both p-values are returned and the one of \<open>d2\<close> is at most the one
  of \<open>d1\<close>.
\<close>

theorem C9_p_value_monotone:
  assumes "index resampled_df \<noteq> []"
    and "get_column resampled_df neuron = Inr null_col"
    and "observed_first observed1 neuron = Inr d1"
    and "observed_first observed2 neuron = Inr d2"
    and "\<bar>d1\<bar> \<le> \<bar>d2\<bar>"
  shows "\<exists>p1 p2. compute_two_side_p_val resampled_df observed1 neuron = Inr p1
           \<and> compute_two_side_p_val resampled_df observed2 neuron = Inr p2
           \<and> p2 \<le> p1"
proof -
  let ?n = "real (length (index resampled_df))"
  let ?k1 = "length (filter (\<lambda>v. \<bar>v\<bar> \<ge> \<bar>d1\<bar>) null_col)"
  let ?k2 = "length (filter (\<lambda>v. \<bar>v\<bar> \<ge> \<bar>d2\<bar>) null_col)"
  have p1: "compute_two_side_p_val resampled_df observed1 neuron = Inr (real ?k1 / ?n)"
    by (rule compute_two_side_p_val_eq [OF assms(1) assms(2) assms(3)])
  have p2: "compute_two_side_p_val resampled_df observed2 neuron = Inr (real ?k2 / ?n)"
    by (rule compute_two_side_p_val_eq [OF assms(1) assms(2) assms(4)])
  have "?k2 \<le> ?k1"
    by (rule count_ge_antimono [OF assms(5)])
  then have "real ?k2 / ?n \<le> real ?k1 / ?n"
    by (simp add: divide_right_mono)
  with p1 p2 show ?thesis
    by blast
qed

theorem C9_p_value_monotone_witness:
  "\<bar>2 :: real\<bar> \<le> \<bar>-5\<bar>
   \<and> compute_two_side_p_val null_A (observed_A 2) ''A'' = Inr (4 / 5)
   \<and> compute_two_side_p_val null_A (observed_A (-5)) ''A'' = Inr (3 / 5)
   \<and> (\<exists>p1 p2. compute_two_side_p_val null_A (observed_A 2) ''A'' = Inr p1
         \<and> compute_two_side_p_val null_A (observed_A (-5)) ''A'' = Inr p2 \<and> p2 \<le> p1)"
proof -
  have a: "index null_A \<noteq> []"
    by (simp add: null_A_def)
  have b: "get_column null_A ''A'' = Inr [5, -5, 1, -7, 2]"
    by (simp add: null_A_def get_column_def)
  have c1: "observed_first (observed_A 2) ''A'' = Inr 2"
    by (simp add: observed_A_def observed_first_def get_column_def values_0_def)
  have c2: "observed_first (observed_A (-5)) ''A'' = Inr (-5)"
    by (simp add: observed_A_def observed_first_def get_column_def values_0_def)
  have le: "\<bar>2 :: real\<bar> \<le> \<bar>-5\<bar>"
    by simp
  have v1: "compute_two_side_p_val null_A (observed_A 2) ''A'' = Inr (4 / 5)"
    by (simp add: compute_two_side_p_val_def null_A_def observed_A_def get_column_def
        values_0_def)
  have v2: "compute_two_side_p_val null_A (observed_A (-5)) ''A'' = Inr (3 / 5)"
    by (simp add: compute_two_side_p_val_def null_A_def observed_A_def get_column_def
        values_0_def)
  from C9_p_value_monotone [OF a b c1 c2 le] le v1 v2 show ?thesis
    by blast
qed

section \<open>Properties of the classification loops\<close>

lemma get_column_Inr:
  "name \<in> set (columns df) \<Longrightarrow> \<exists>vs. get_column df name = Inr vs"
  by (auto simp: columns_def get_column_def map_of_eq_None_iff split: option.splits)

lemma get_num_of_events_Inr:
  "name \<in> set (columns df) \<Longrightarrow> \<exists>k. get_num_of_events df name = Inr k"
  using get_column_Inr [of name df] by (auto simp: get_num_of_events_def)

lemma mark_unclassified_result:
  "set ns \<subseteq> set (columns df) \<Longrightarrow>
   mark_unclassified df thr ns m =
     Inr (\<lambda>n. if m n = None \<and> n \<in> set ns \<and> event_filtered df thr n
               then Some ''unclassified'' else m n)"
proof (induction ns arbitrary: m)
  case Nil
  then show ?case by simp
next
  case (Cons a ns)
  from Cons.prems obtain k where k: "get_num_of_events df a = Inr k"
    using get_num_of_events_Inr [of a df] by auto
  from Cons.prems have sub: "set ns \<subseteq> set (columns df)" by simp
  show ?case
    by (simp add: k Cons.IH [OF sub] set_if_absent_def event_filtered_def fun_eq_iff)
qed

lemma mark_unclassified_empty:
  "mark_unclassified df thr (columns df) Map.empty =
     Inr (\<lambda>n. if event_filtered df thr n then Some ''unclassified'' else None)"
proof -
  have "event_filtered df thr n \<Longrightarrow> n \<in> set (columns df)" for n
    by (auto simp: event_filtered_def get_num_of_events_def get_column_def columns_def
        split: sum.splits option.splits dest: map_of_SomeD intro: rev_image_eqI)
  then show ?thesis
    by (subst mark_unclassified_result) (auto simp: fun_eq_iff)
qed

lemma label_by_p_value_Inr:
  "label_by_p_value res obs alpha ns m = Inr m' \<Longrightarrow>
   (\<forall>n \<in> set ns. \<exists>p. compute_two_side_p_val res obs n = Inr p) \<and>
   (\<forall>n. m' n = (if m n = None \<and> n \<in> set ns
                 then Some (if projr (compute_two_side_p_val res obs n) \<le> alpha
                            then ''selective'' else ''not-selective'')
                 else m n))"
proof (induction ns arbitrary: m)
  case Nil
  then show ?case by simp
next
  case (Cons a ns)
  let ?L = "\<lambda>n. if projr (compute_two_side_p_val res obs n) \<le> alpha
                 then ''selective'' else ''not-selective''"
  from Cons.prems obtain p where p: "compute_two_side_p_val res obs a = Inr p"
    by (auto split: sum.splits)
  let ?m1 = "set_if_absent m a (?L a)"
  from Cons.prems p have run: "label_by_p_value res obs alpha ns ?m1 = Inr m'"
    by (simp split: if_splits)
  note ih = Cons.IH [OF run]
  have m1: "?m1 n = (if n = a \<and> m a = None then Some (?L a) else m n)" for n
    by (simp add: set_if_absent_def)
  have "m' n = (if m n = None \<and> n \<in> set (a # ns) then Some (?L n) else m n)" for n
  proof -
    from ih have "m' n = (if ?m1 n = None \<and> n \<in> set ns then Some (?L n) else ?m1 n)"
      by blast
    then show ?thesis
      unfolding m1 by (cases "n = a") auto
  qed
  with ih p show ?case
    by auto
qed

lemma label_by_p_value_total:
  "\<forall>n \<in> set ns. \<exists>p. compute_two_side_p_val res obs n = Inr p \<Longrightarrow>
   \<exists>m'. label_by_p_value res obs alpha ns m = Inr m'"
  by (induction ns arbitrary: m) (auto split: sum.splits)


lemma classify_non_parametrically_Inr:
  assumes "classify_neurons_non_parametrically dataframe resampled_df real_diff_df p_value
             threshold = Inr classified"
    and "neuron \<in> set (columns resampled_df)"
    and "\<not> event_filtered dataframe threshold neuron"
  shows "\<exists>p. compute_two_side_p_val resampled_df real_diff_df neuron = Inr p \<and>
             classified neuron = Some (if p \<le> p_value then ''selective'' else ''not-selective'')"
proof -
  let ?m = "\<lambda>n. if event_filtered dataframe threshold n then Some ''unclassified'' else None"
  from assms(1) have run:
    "label_by_p_value resampled_df real_diff_df p_value (columns resampled_df) ?m = Inr classified"
    by (simp add: classify_neurons_non_parametrically_def mark_unclassified_empty)
  from label_by_p_value_Inr [OF run] assms(2)
  obtain p where p: "compute_two_side_p_val resampled_df real_diff_df neuron = Inr p"
    by blast
  from label_by_p_value_Inr [OF run] have
    "classified neuron = (if ?m neuron = None \<and> neuron \<in> set (columns resampled_df)
       then Some (if projr (compute_two_side_p_val resampled_df real_diff_df neuron) \<le> p_value
                  then ''selective'' else ''not-selective'')
       else ?m neuron)"
    by blast
  with assms(2) assms(3) p show ?thesis
    by simp
qed

lemma classify_non_parametrically_total:
  assumes "index resampled_df \<noteq> []"
    and "\<forall>neuron \<in> set (columns resampled_df). \<exists>d. observed_first real_diff_df neuron = Inr d"
  shows "\<exists>classified. classify_neurons_non_parametrically dataframe resampled_df real_diff_df
            p_value threshold = Inr classified"
proof -
  have "\<exists>p. compute_two_side_p_val resampled_df real_diff_df neuron = Inr p"
    if "neuron \<in> set (columns resampled_df)" for neuron
  proof -
    from that obtain null_col where c: "get_column resampled_df neuron = Inr null_col"
      using get_column_Inr by blast
    from that assms(2) obtain d where d: "observed_first real_diff_df neuron = Inr d"
      by blast
    from compute_two_side_p_val_eq [OF assms(1) c d] show ?thesis
      by blast
  qed
  then have "\<forall>n \<in> set (columns resampled_df).
      \<exists>p. compute_two_side_p_val resampled_df real_diff_df n = Inr p"
    by blast
  from label_by_p_value_total [OF this] show ?thesis
    unfolding classify_neurons_non_parametrically_def mark_unclassified_empty
    by simp
qed



text \<open>
  C4. When the non-parametric strategy returns, every column of the null table that
  the event-count filter did not remove has a p-value \<open>p\<close> and carries the one label
  \<^verbatim>\<open>selective\<close> if \<open>p \<le> p_value\<close> and \<^verbatim>\<open>not-selective\<close> otherwise. The strategy returns
  whenever the null table has a row and the observed table a first value for every
  column of the null table.
\<close>

theorem C4_non_parametric_labels:
  "(classify_neurons_non_parametrically dataframe resampled_df real_diff_df p_value threshold
      = Inr classified \<longrightarrow>
    (\<forall>neuron \<in> set (columns resampled_df).
       \<not> event_filtered dataframe threshold neuron \<longrightarrow>
       (\<exists>p. compute_two_side_p_val resampled_df real_diff_df neuron = Inr p \<and>
            classified neuron =
              Some (if p \<le> p_value then ''selective'' else ''not-selective''))))
   \<and> (index resampled_df \<noteq> [] \<and>
      (\<forall>neuron \<in> set (columns resampled_df).
         \<exists>d. observed_first real_diff_df neuron = Inr d) \<longrightarrow>
      (\<exists>labelled. classify_neurons_non_parametrically dataframe resampled_df real_diff_df
         p_value threshold = Inr labelled))"
proof (intro conjI impI ballI)
  fix neuron
  assume "classify_neurons_non_parametrically dataframe resampled_df real_diff_df p_value
            threshold = Inr classified"
    and "neuron \<in> set (columns resampled_df)"
    and "\<not> event_filtered dataframe threshold neuron"
  then show "\<exists>p. compute_two_side_p_val resampled_df real_diff_df neuron = Inr p \<and>
            classified neuron =
              Some (if p \<le> p_value then ''selective'' else ''not-selective'')"
    by (rule classify_non_parametrically_Inr)
next
  assume "index resampled_df \<noteq> [] \<and>
      (\<forall>neuron \<in> set (columns resampled_df).
         \<exists>d. observed_first real_diff_df neuron = Inr d)"
  then show "\<exists>labelled. classify_neurons_non_parametrically dataframe resampled_df
      real_diff_df p_value threshold = Inr labelled"
    using classify_non_parametrically_total by blast
qed

lemma activity_AB_filter:
  "\<not> event_filtered activity_AB 2 ''A''" "event_filtered activity_AB 2 ''B''"
  by (simp_all add: event_filtered_def get_num_of_events_def get_column_def activity_AB_def)

lemma null_AB_p_value:
  "compute_two_side_p_val null_AB (observed_AB l (-7)) ''A'' = Inr (1 / 5)"
  "compute_two_side_p_val null_AB (observed_AB l (-5)) ''A'' = Inr (3 / 5)"
  by (simp_all add: compute_two_side_p_val_def null_AB_def observed_AB_def get_column_def
      values_0_def)


text \<open>Neuron \<open>A\<close> has three events (threshold 2); at the observed value \<open>-7\<close> its
  p-value is \<open>1 / 5\<close>, which meets the cutoff \<open>1 / 5\<close>.\<close>

theorem C4_non_parametric_labels_witness:
  "index null_AB \<noteq> []
   \<and> \<not> event_filtered activity_AB 2 ''A''
   \<and> compute_two_side_p_val null_AB (observed_AB (StrLabel ''d'') (-7)) ''A'' = Inr (1 / 5)
   \<and> (\<exists>labelled. classify_neurons_non_parametrically activity_AB null_AB
          (observed_AB (StrLabel ''d'') (-7)) (1 / 5) 2 = Inr labelled
        \<and> labelled ''A'' = Some ''selective'')"
proof -
  let ?obs = "observed_AB (StrLabel ''d'') (-7)"
  have rows: "index null_AB \<noteq> []"
    by (simp add: null_AB_def)
  have cols: "columns null_AB = [''A'', ''B'']"
    by (simp add: null_AB_def columns_def)
  have obs: "\<forall>neuron \<in> set (columns null_AB). \<exists>d. observed_first ?obs neuron = Inr d"
    by (simp add: cols observed_first_def observed_AB_def get_column_def values_0_def)
  have A: "''A'' \<in> set (columns null_AB)"
    by (simp add: cols)
  from C4_non_parametric_labels [of activity_AB null_AB ?obs "1 / 5" 2,
      THEN conjunct2, THEN mp, OF conjI, OF rows obs]
  obtain labelled where
    run: "classify_neurons_non_parametrically activity_AB null_AB ?obs (1 / 5) 2 = Inr labelled"
    by (rule exE)
  from C4_non_parametric_labels [of activity_AB null_AB ?obs "1 / 5" 2 labelled,
      THEN conjunct1, THEN mp, OF run, THEN bspec, OF A, THEN mp, OF activity_AB_filter(1)]
  obtain p where
    "compute_two_side_p_val null_AB ?obs ''A'' = Inr p"
    "labelled ''A'' = Some (if p \<le> 1 / 5 then ''selective'' else ''not-selective'')"
    by (elim exE conjE)
  with null_AB_p_value(1) [of "StrLabel ''d''"] have "labelled ''A'' = Some ''selective''"
    by simp
  with run rows activity_AB_filter(1) null_AB_p_value(1) show ?thesis
    by blast
qed

section \<open>Properties of the parametric strategy\<close>

lemma two_tailed_Inr:
  assumes "two_tailed_neuron_classification resampled_df real_d_df neuron behavior_name
             high_tail low_tail = Inr l"
  shows "\<exists>d null_col high.
           loc_d real_d_df neuron = Inr [d] \<and>
           get_column resampled_df neuron = Inr null_col \<and>
           np_percentile null_col high_tail = Inr high \<and>
           (if d \<ge> high then l = behavior_name
            else \<exists>low. np_percentile null_col low_tail = Inr low \<and>
                   l = (if d \<le> low then ''Non-'' @ behavior_name else ''Not-selective''))"
  using assms
  by (auto simp: two_tailed_neuron_classification_def
      split: sum.splits list.splits if_splits)

lemma np_percentile_total:
  "a \<noteq> [] \<Longrightarrow> 0 \<le> q \<Longrightarrow> q \<le> 100 \<Longrightarrow> \<exists>v. np_percentile a q = Inr v"
  by (simp add: np_percentile_def Let_def)

lemma two_tailed_total:
  assumes "loc_d real_d_df neuron = Inr [d]"
    and "get_column resampled_df neuron = Inr null_col"
    and "null_col \<noteq> []"
    and "0 \<le> high_tail" "high_tail \<le> 100" "0 \<le> low_tail" "low_tail \<le> 100"
  shows "\<exists>l. two_tailed_neuron_classification resampled_df real_d_df neuron behavior_name
             high_tail low_tail = Inr l"
proof -
  from assms obtain high low where
    "np_percentile null_col high_tail = Inr high" "np_percentile null_col low_tail = Inr low"
    using np_percentile_total by blast
  with assms(1,2) show ?thesis
    by (simp add: two_tailed_neuron_classification_def)
qed

lemma label_by_tails_Inr:
  "label_by_tails res obs b h l ns m = Inr m' \<Longrightarrow>
   (\<forall>n \<in> set ns. m n = None \<longrightarrow>
      (\<exists>lab. two_tailed_neuron_classification res obs n b h l = Inr lab)) \<and>
   (\<forall>n. m' n = (if m n = None \<and> n \<in> set ns
                 then Some (projr (two_tailed_neuron_classification res obs n b h l))
                 else m n))"
proof (induction ns arbitrary: m)
  case Nil
  then show ?case by simp
next
  case (Cons a ns)
  let ?T = "\<lambda>n. two_tailed_neuron_classification res obs n b h l"
  show ?case
  proof (cases "m a = None")
    case True
    with Cons.prems obtain lab where lab: "?T a = Inr lab"
      by (auto split: sum.splits)
    with Cons.prems True have run: "label_by_tails res obs b h l ns (m(a \<mapsto> lab)) = Inr m'"
      by simp
    note ih = Cons.IH [OF run]
    have *: "m' n = (if m n = None \<and> n \<in> set (a # ns) then Some (projr (?T n)) else m n)"
      for n
    proof -
      from ih have "m' n = (if (m(a \<mapsto> lab)) n = None \<and> n \<in> set ns
          then Some (projr (?T n)) else (m(a \<mapsto> lab)) n)"
        by blast
      then show ?thesis
        using True lab by (cases "n = a") auto
    qed
    have "\<exists>lab. ?T n = Inr lab" if "n \<in> set (a # ns)" "m n = None" for n
    proof (cases "n = a")
      case True
      with lab show ?thesis by blast
    next
      case False
      with that have "n \<in> set ns" "(m(a \<mapsto> lab)) n = None"
        by auto
      with ih show ?thesis by blast
    qed
    with * show ?thesis
      by blast
  next
    case False
    with Cons.prems have run: "label_by_tails res obs b h l ns m = Inr m'"
      by simp
    note ih = Cons.IH [OF run]
    have *: "m' n = (if m n = None \<and> n \<in> set (a # ns) then Some (projr (?T n)) else m n)"
      for n
    proof -
      from ih have "m' n = (if m n = None \<and> n \<in> set ns then Some (projr (?T n)) else m n)"
        by blast
      then show ?thesis
        using False by (cases "n = a") auto
    qed
    have "\<exists>lab. ?T n = Inr lab" if "n \<in> set (a # ns)" "m n = None" for n
    proof -
      from that False have "n \<in> set ns" by auto
      with ih that show ?thesis by blast
    qed
    with * show ?thesis
      by blast
  qed
qed

lemma label_by_tails_total:
  "\<forall>n \<in> set ns. m n = None \<longrightarrow>
      (\<exists>lab. two_tailed_neuron_classification res obs n b h l = Inr lab) \<Longrightarrow>
   \<exists>m'. label_by_tails res obs b h l ns m = Inr m'"
proof (induction ns arbitrary: m)
  case Nil
  then show ?case by simp
next
  case (Cons a ns)
  show ?case
  proof (cases "m a = None")
    case True
    with Cons.prems obtain lab where
      lab: "two_tailed_neuron_classification res obs a b h l = Inr lab"
      by auto
    have rest: "\<forall>n \<in> set ns. (m(a \<mapsto> lab)) n = None \<longrightarrow>
      (\<exists>lab. two_tailed_neuron_classification res obs n b h l = Inr lab)"
      using Cons.prems by auto
    have step: "label_by_tails res obs b h l (a # ns) m =
        label_by_tails res obs b h l ns (m(a \<mapsto> lab))"
      using True lab by simp
    from Cons.IH [OF rest] show ?thesis
      unfolding step .
  next
    case False
    have "\<forall>n \<in> set ns. m n = None \<longrightarrow>
      (\<exists>lab. two_tailed_neuron_classification res obs n b h l = Inr lab)"
      using Cons.prems by auto
    from Cons.IH [OF this] False show ?thesis
      by auto
  qed
qed

lemma label_by_tails_skip:
  "\<forall>n. \<not> P n \<longrightarrow> m n \<noteq> None \<Longrightarrow>
   label_by_tails res obs b h l ns m = label_by_tails res obs b h l (filter P ns) m"
proof (induction ns arbitrary: m)
  case Nil
  then show ?case by simp
next
  case (Cons a ns)
  show ?case
  proof (cases "m a = None")
    case True
    with Cons.prems have Pa: "P a" by blast
    show ?thesis
    proof (cases "two_tailed_neuron_classification res obs a b h l")
      case (Inl e)
      with True Pa show ?thesis by simp
    next
      case (Inr lab)
      have rest: "\<forall>n. \<not> P n \<longrightarrow> (m(a \<mapsto> lab)) n \<noteq> None"
        using Cons.prems by simp
      have step: "label_by_tails res obs b h l (a # xs) m =
          label_by_tails res obs b h l xs (m(a \<mapsto> lab))" for xs
        using True Inr by simp
      have "filter P (a # ns) = a # filter P ns"
        using Pa by simp
      with Cons.IH [OF rest] show ?thesis
        by (simp only: step)
    qed
  next
    case False
    with Cons.IH [OF Cons.prems] show ?thesis
      by auto
  qed
qed

lemma label_by_tails_KeyError:
  "\<forall>n. two_tailed_neuron_classification res obs n b h l = Inl KeyError \<Longrightarrow>
   \<exists>n \<in> set ns. m n = None \<Longrightarrow>
   label_by_tails res obs b h l ns m = Inl KeyError"
  by (induction ns arbitrary: m) auto


lemma classify_parametrically_Inr:
  assumes "classify_neurons_parametrically dataframe resampled_df real_diff_df behavior_name
             high_tail low_tail threshold = Inr classified"
    and "neuron \<in> set (columns resampled_df)"
    and "\<not> event_filtered dataframe threshold neuron"
  shows "\<exists>d null_col high.
           loc_d real_diff_df neuron = Inr [d] \<and>
           get_column resampled_df neuron = Inr null_col \<and>
           np_percentile null_col high_tail = Inr high \<and>
           (if d \<ge> high then classified neuron = Some behavior_name
            else \<exists>low. np_percentile null_col low_tail = Inr low \<and>
                   classified neuron =
                     Some (if d \<le> low then ''Non-'' @ behavior_name else ''Not-selective''))"
proof -
  let ?m = "\<lambda>n. if event_filtered dataframe threshold n then Some ''unclassified'' else None"
  let ?T = "\<lambda>n. two_tailed_neuron_classification resampled_df real_diff_df n behavior_name
                 high_tail low_tail"
  from assms(1) have run:
    "label_by_tails resampled_df real_diff_df behavior_name high_tail low_tail
       (columns resampled_df) ?m = Inr classified"
    by (simp add: classify_neurons_parametrically_def mark_unclassified_empty)
  from assms(3) have none: "?m neuron = None"
    by simp
  from label_by_tails_Inr [OF run] assms(2) none obtain l where l: "?T neuron = Inr l"
    by blast
  from label_by_tails_Inr [OF run] have
    "classified neuron = (if ?m neuron = None \<and> neuron \<in> set (columns resampled_df)
       then Some (projr (?T neuron)) else ?m neuron)"
    by blast
  with assms(2) none l have lab: "classified neuron = Some l"
    by simp
  from two_tailed_Inr [OF l] lab show ?thesis
    by (auto split: if_splits)
qed

lemma classify_parametrically_total:
  assumes "0 \<le> high_tail" "high_tail \<le> 100" "0 \<le> low_tail" "low_tail \<le> 100"
    and "\<forall>neuron \<in> set (columns resampled_df).
           (\<exists>d. loc_d real_diff_df neuron = Inr [d]) \<and> get_column resampled_df neuron \<noteq> Inr []"
  shows "\<exists>labelled. classify_neurons_parametrically dataframe resampled_df real_diff_df
            behavior_name high_tail low_tail threshold = Inr labelled"
proof -
  let ?m = "\<lambda>n. if event_filtered dataframe threshold n then Some ''unclassified'' else None"
  have "\<exists>l. two_tailed_neuron_classification resampled_df real_diff_df neuron behavior_name
             high_tail low_tail = Inr l"
    if "neuron \<in> set (columns resampled_df)" for neuron
  proof -
    from that obtain null_col where c: "get_column resampled_df neuron = Inr null_col"
      using get_column_Inr by blast
    from that assms(5) c have ne: "null_col \<noteq> []"
      by auto
    from that assms(5) obtain d where d: "loc_d real_diff_df neuron = Inr [d]"
      by blast
    from two_tailed_total [OF d c ne assms(1-4)] show ?thesis .
  qed
  then have "\<forall>n \<in> set (columns resampled_df). ?m n = None \<longrightarrow>
      (\<exists>lab. two_tailed_neuron_classification resampled_df real_diff_df n behavior_name
         high_tail low_tail = Inr lab)"
    by blast
  from label_by_tails_total [OF this] show ?thesis
    unfolding classify_neurons_parametrically_def mark_unclassified_empty
    by simp
qed

text \<open>
  C5. When the parametric strategy returns, every column of the null table that the
  event-count filter did not remove has one observed value \<open>d\<close> (the cell of the row
  labelled \<^verbatim>\<open>d\<close>) and carries one label, chosen in this order: \<open>behavior_name\<close> if \<open>d\<close> is
  at least the \<open>high_tail\<close>-th percentile of its null column, else
  \<^verbatim>\<open>"Non-" + behavior_name\<close> if \<open>d\<close> is at most the \<open>low_tail\<close>-th percentile, else
  \<^verbatim>\<open>Not-selective\<close>. Both bounds are inclusive, and when both comparisons hold the
  first one decides. The strategy returns whenever both cutoffs lie in \<open>[0, 100]\<close>,
  every null column is non-empty and the observed table has exactly one cell
  labelled \<^verbatim>\<open>d\<close> for every column of the null table.
\<close>

theorem C5_parametric_labels:
  "(classify_neurons_parametrically dataframe resampled_df real_diff_df behavior_name
      high_tail low_tail threshold = Inr classified \<longrightarrow>
    (\<forall>neuron \<in> set (columns resampled_df).
       \<not> event_filtered dataframe threshold neuron \<longrightarrow>
       (\<exists>d null_col high.
          loc_d real_diff_df neuron = Inr [d] \<and>
          get_column resampled_df neuron = Inr null_col \<and>
          np_percentile null_col high_tail = Inr high \<and>
          (if d \<ge> high then classified neuron = Some behavior_name
           else \<exists>low. np_percentile null_col low_tail = Inr low \<and>
                  classified neuron =
                    Some (if d \<le> low then ''Non-'' @ behavior_name
                          else ''Not-selective'')))))
   \<and> (0 \<le> high_tail \<and> high_tail \<le> 100 \<and> 0 \<le> low_tail \<and> low_tail \<le> 100 \<and>
      (\<forall>neuron \<in> set (columns resampled_df).
         (\<exists>d. loc_d real_diff_df neuron = Inr [d]) \<and>
         get_column resampled_df neuron \<noteq> Inr []) \<longrightarrow>
      (\<exists>labelled. classify_neurons_parametrically dataframe resampled_df real_diff_df
         behavior_name high_tail low_tail threshold = Inr labelled))"
proof (intro conjI impI ballI)
  fix neuron
  assume "classify_neurons_parametrically dataframe resampled_df real_diff_df behavior_name
      high_tail low_tail threshold = Inr classified"
    and "neuron \<in> set (columns resampled_df)"
    and "\<not> event_filtered dataframe threshold neuron"
  then show "\<exists>d null_col high.
          loc_d real_diff_df neuron = Inr [d] \<and>
          get_column resampled_df neuron = Inr null_col \<and>
          np_percentile null_col high_tail = Inr high \<and>
          (if d \<ge> high then classified neuron = Some behavior_name
           else \<exists>low. np_percentile null_col low_tail = Inr low \<and>
                  classified neuron =
                    Some (if d \<le> low then ''Non-'' @ behavior_name
                          else ''Not-selective''))"
    by (rule classify_parametrically_Inr)
next
  assume a: "0 \<le> high_tail \<and> high_tail \<le> 100 \<and> 0 \<le> low_tail \<and> low_tail \<le> 100 \<and>
      (\<forall>neuron \<in> set (columns resampled_df).
         (\<exists>d. loc_d real_diff_df neuron = Inr [d]) \<and>
         get_column resampled_df neuron \<noteq> Inr [])"
  show "\<exists>labelled. classify_neurons_parametrically dataframe resampled_df real_diff_df
         behavior_name high_tail low_tail threshold = Inr labelled"
    by (rule classify_parametrically_total) (use a in blast)+
qed

lemma null_AB_percentiles:
  "np_percentile [5, -5, 1, -7, 2] 95 = Inr (22 / 5)"
  "np_percentile [5, -5, 1, -7, 2] 5 = Inr (- 33 / 5)"
  by (simp_all add: np_percentile_def Let_def)


text \<open>The observed value \<open>22 / 5\<close> of neuron \<open>A\<close> equals the 95th percentile of its
  null column: the boundary belongs to the high tail.\<close>

theorem C5_parametric_labels_witness:
  "\<not> event_filtered activity_AB 2 ''A''
   \<and> np_percentile [5, -5, 1, -7, 2] 95 = Inr (22 / 5)
   \<and> (\<exists>labelled. classify_neurons_parametrically activity_AB null_AB
          (observed_AB (StrLabel ''d'') (22 / 5)) ''open'' 95 5 2 = Inr labelled
        \<and> labelled ''A'' = Some ''open'')"
proof -
  let ?obs = "observed_AB (StrLabel ''d'') (22 / 5)"
  have cols: "columns null_AB = [''A'', ''B'']"
    by (simp add: null_AB_def columns_def)
  have A: "''A'' \<in> set (columns null_AB)"
    by (simp add: cols)
  have colA: "get_column null_AB ''A'' = Inr [5, -5, 1, -7, 2]"
    by (simp add: null_AB_def get_column_def)
  have dA: "loc_d ?obs ''A'' = Inr [22 / 5]"
    by (simp add: loc_d_def observed_AB_def get_column_def)
  have wf: "0 \<le> (95 :: real) \<and> (95 :: real) \<le> 100 \<and> 0 \<le> (5 :: real) \<and> (5 :: real) \<le> 100 \<and>
      (\<forall>neuron \<in> set (columns null_AB).
         (\<exists>d. loc_d ?obs neuron = Inr [d]) \<and> get_column null_AB neuron \<noteq> Inr [])"
  proof -
    have "loc_d ?obs ''B'' = Inr [1]"
      by (simp add: loc_d_def observed_AB_def get_column_def)
    with dA have d: "\<exists>d. loc_d ?obs ''A'' = Inr [d]" "\<exists>d. loc_d ?obs ''B'' = Inr [d]"
      by blast+
    have c: "get_column null_AB ''A'' \<noteq> Inr []" "get_column null_AB ''B'' \<noteq> Inr []"
      by (simp_all add: get_column_def null_AB_def)
    from d c show ?thesis
      unfolding cols by simp
  qed
  from C5_parametric_labels [of activity_AB null_AB ?obs "''open''" 95 5 2,
      THEN conjunct2, THEN mp, OF wf]
  obtain labelled where
    run: "classify_neurons_parametrically activity_AB null_AB ?obs ''open'' 95 5 2 = Inr labelled"
    by (rule exE)
  from C5_parametric_labels [of activity_AB null_AB ?obs "''open''" 95 5 2 labelled,
      THEN conjunct1, THEN mp, OF run, THEN bspec, OF A, THEN mp, OF activity_AB_filter(1)]
  obtain d null_col high where
    "loc_d ?obs ''A'' = Inr [d]" "get_column null_AB ''A'' = Inr null_col"
    "np_percentile null_col 95 = Inr high"
    "if d \<ge> high then labelled ''A'' = Some ''open''
     else \<exists>low. np_percentile null_col 5 = Inr low \<and>
            labelled ''A'' = Some (if d \<le> low then ''Non-'' @ ''open'' else ''Not-selective'')"
    by (elim exE conjE)
  with dA colA null_AB_percentiles(1) have "labelled ''A'' = Some ''open''"
    by simp
  with run activity_AB_filter(1) null_AB_percentiles(1) show ?thesis
    by blast
qed

lemma filtered_unclassified_non_parametric:
  assumes "classify_neurons_non_parametrically dataframe resampled_df real_diff_df p_value
             threshold = Inr classified"
    and "event_filtered dataframe threshold neuron"
  shows "classified neuron = Some ''unclassified''"
proof -
  let ?m = "\<lambda>n. if event_filtered dataframe threshold n then Some ''unclassified'' else None"
  from assms(1) have run:
    "label_by_p_value resampled_df real_diff_df p_value (columns resampled_df) ?m = Inr classified"
    by (simp add: classify_neurons_non_parametrically_def mark_unclassified_empty)
  from label_by_p_value_Inr [OF run] have
    "classified neuron = (if ?m neuron = None \<and> neuron \<in> set (columns resampled_df)
       then Some (if projr (compute_two_side_p_val resampled_df real_diff_df neuron) \<le> p_value
                  then ''selective'' else ''not-selective'')
       else ?m neuron)"
    by blast
  with assms(2) show ?thesis
    by simp
qed

lemma filtered_unclassified_parametric:
  assumes "classify_neurons_parametrically dataframe resampled_df real_diff_df behavior_name
             high_tail low_tail threshold = Inr classified"
    and "event_filtered dataframe threshold neuron"
  shows "classified neuron = Some ''unclassified''"
proof -
  let ?m = "\<lambda>n. if event_filtered dataframe threshold n then Some ''unclassified'' else None"
  from assms(1) have run:
    "label_by_tails resampled_df real_diff_df behavior_name high_tail low_tail
       (columns resampled_df) ?m = Inr classified"
    by (simp add: classify_neurons_parametrically_def mark_unclassified_empty)
  from label_by_tails_Inr [OF run] have
    "classified neuron = (if ?m neuron = None \<and> neuron \<in> set (columns resampled_df)
       then Some (projr (two_tailed_neuron_classification resampled_df real_diff_df neuron
                    behavior_name high_tail low_tail))
       else ?m neuron)"
    by blast
  with assms(2) show ?thesis
    by simp
qed

lemma parametric_skips_filtered:
  "classify_neurons_parametrically dataframe resampled_df real_diff_df behavior_name
     high_tail low_tail threshold =
   label_by_tails resampled_df real_diff_df behavior_name high_tail low_tail
     (filter (\<lambda>n. \<not> event_filtered dataframe threshold n) (columns resampled_df))
     (\<lambda>n. if event_filtered dataframe threshold n then Some ''unclassified'' else None)"
proof -
  let ?m = "\<lambda>n. if event_filtered dataframe threshold n then Some ''unclassified'' else None"
  have "\<forall>n. \<not> \<not> event_filtered dataframe threshold n \<longrightarrow> ?m n \<noteq> None"
    by simp
  from label_by_tails_skip [of "\<lambda>n. \<not> event_filtered dataframe threshold n" ?m, OF this]
  show ?thesis
    unfolding classify_neurons_parametrically_def mark_unclassified_empty by simp
qed

lemma non_parametric_needs_every_p_value:
  assumes "classify_neurons_non_parametrically dataframe resampled_df real_diff_df p_value
             threshold = Inr classified"
    and "neuron \<in> set (columns resampled_df)"
  shows "\<exists>p. compute_two_side_p_val resampled_df real_diff_df neuron = Inr p"
proof -
  let ?m = "\<lambda>n. if event_filtered dataframe threshold n then Some ''unclassified'' else None"
  from assms(1) have run:
    "label_by_p_value resampled_df real_diff_df p_value (columns resampled_df) ?m = Inr classified"
    by (simp add: classify_neurons_non_parametrically_def mark_unclassified_empty)
  from label_by_p_value_Inr [OF run] assms(2) show ?thesis
    by blast
qed

lemma null_AB_columns: "columns null_AB = [''A'', ''B'']"
  by (simp add: null_AB_def columns_def)

lemma activity_AB_unclassified:
  "mark_unclassified activity_AB 2 (columns activity_AB) Map.empty =
     Inr [''B'' \<mapsto> ''unclassified'']"
proof -
  have "columns activity_AB = [''A'', ''B'']"
    by (simp add: activity_AB_def columns_def)
  moreover have "get_num_of_events activity_AB ''A'' = Inr 3"
    "get_num_of_events activity_AB ''B'' = Inr 1"
    by (simp_all add: get_num_of_events_def get_column_def activity_AB_def)
  ultimately show ?thesis
    by (simp add: set_if_absent_def)
qed

text \<open>
  C3. In both strategies a neuron below the event threshold keeps the label
  \<^verbatim>\<open>unclassified\<close> whenever the strategy returns (the two lemmas
  \<open>filtered_unclassified_non_parametric\<close> and \<open>filtered_unclassified_parametric\<close>), and
  the parametric strategy evaluates nothing for it (\<open>parametric_skips_filtered\<close>). The
  non-parametric strategy, however, computes the p-value of every column of the null
  table before it looks at the label (\<open>non_parametric_needs_every_p_value\<close>): with
  neuron \<open>B\<close> filtered and an observed table that holds a value for \<open>A\<close> only, it
  raises KeyError from the p-value of \<open>B\<close>, where the parametric strategy returns
  \<open>B\<close> as \<^verbatim>\<open>unclassified\<close>.
\<close>

theorem C3_non_parametric_evaluates_filtered:
  "event_filtered activity_AB 2 ''B''
   \<and> classify_neurons_non_parametrically activity_AB null_AB observed_only_A (1 / 20) 2
       = Inl KeyError
   \<and> classify_neurons_parametrically activity_AB null_AB observed_only_A ''open'' 95 5 2
       = Inr [''B'' \<mapsto> ''unclassified'', ''A'' \<mapsto> ''Non-open'']"
proof -
  have pA: "compute_two_side_p_val null_AB observed_only_A ''A'' = Inr (1 / 5)"
    by (simp add: compute_two_side_p_val_def null_AB_def observed_only_A_def get_column_def
        values_0_def)
  have pB: "compute_two_side_p_val null_AB observed_only_A ''B'' = Inl KeyError"
    by (simp add: compute_two_side_p_val_def null_AB_def observed_only_A_def get_column_def
        values_0_def)
  have np: "classify_neurons_non_parametrically activity_AB null_AB observed_only_A (1 / 20) 2
       = Inl KeyError"
    by (simp add: classify_neurons_non_parametrically_def activity_AB_unclassified
        null_AB_columns pA pB set_if_absent_def)
  have tA: "two_tailed_neuron_classification null_AB observed_only_A ''A'' ''open'' 95 5
      = Inr ''Non-open''"
    by (simp add: two_tailed_neuron_classification_def loc_d_def observed_only_A_def
        get_column_def null_AB_def null_AB_percentiles)
  have par: "classify_neurons_parametrically activity_AB null_AB observed_only_A ''open'' 95 5 2
       = Inr [''B'' \<mapsto> ''unclassified'', ''A'' \<mapsto> ''Non-open'']"
    by (simp add: classify_neurons_parametrically_def activity_AB_unclassified
        null_AB_columns tA)
  from activity_AB_filter(2) np par show ?thesis
    by (intro conjI)
qed

section \<open>Degenerate null columns and the label of the observed row\<close>









lemma loc_d_single_row:
  assumes "index real_d_df = [l]" and "get_column real_d_df neuron = Inr [d]"
  shows "loc_d real_d_df neuron = (if l = StrLabel ''d'' then Inr [d] else Inl KeyError)"
  using assms by (simp add: loc_d_def)

lemma loc_d_other_label:
  assumes "index real_d_df = [l]" and "l \<noteq> StrLabel ''d''"
  shows "loc_d real_d_df neuron = Inl KeyError"
proof (cases "get_column real_d_df neuron")
  case (Inl e)
  then have "e = KeyError"
    by (simp add: get_column_def split: option.splits)
  with Inl show ?thesis
    by (simp add: loc_d_def)
next
  case (Inr vs)
  with assms show ?thesis
    by (cases vs) (simp_all add: loc_d_def)
qed

lemma two_tailed_other_label:
  assumes "index real_d_df = [l]" and "l \<noteq> StrLabel ''d''"
  shows "two_tailed_neuron_classification resampled_df real_d_df neuron behavior_name
           high_tail low_tail = Inl KeyError"
  by (simp add: two_tailed_neuron_classification_def loc_d_other_label [OF assms])

lemma classify_parametrically_other_label:
  assumes "index real_d_df = [l]" and "l \<noteq> StrLabel ''d''"
    and "\<exists>n \<in> set (columns resampled_df). \<not> event_filtered dataframe threshold n"
  shows "classify_neurons_parametrically dataframe resampled_df real_d_df behavior_name
           high_tail low_tail threshold = Inl KeyError"
proof -
  let ?m = "\<lambda>n. if event_filtered dataframe threshold n then Some ''unclassified'' else None"
  have all: "\<forall>n. two_tailed_neuron_classification resampled_df real_d_df n behavior_name
           high_tail low_tail = Inl KeyError"
    using two_tailed_other_label [OF assms(1,2)] by blast
  from assms(3) have some: "\<exists>n \<in> set (columns resampled_df). ?m n = None"
    by auto
  from label_by_tails_KeyError [OF all some] show ?thesis
    unfolding classify_neurons_parametrically_def mark_unclassified_empty by simp
qed

text \<open>
  C10. For an observed table with a single row labelled \<open>l\<close>: the parametric strategy
  reads the value by the label \<^verbatim>\<open>d\<close>, so with any other label
  \<open>two_tailed_neuron_classification\<close> raises KeyError for every neuron and
  \<open>classify_neurons_parametrically\<close> raises KeyError as soon as one column of the null
  table is not filtered; \<open>compute_two_side_p_val\<close> reads the first cell by position
  and returns the p-value on the same table, whatever the label.
\<close>

theorem C10_observed_row_label:
  assumes "index real_d_df = [l]"
  shows "(get_column real_d_df neuron = Inr [d] \<longrightarrow>
            loc_d real_d_df neuron = (if l = StrLabel ''d'' then Inr [d] else Inl KeyError) \<and>
            observed_first real_d_df neuron = Inr d)
    \<and> (l \<noteq> StrLabel ''d'' \<longrightarrow>
         two_tailed_neuron_classification resampled_df real_d_df neuron behavior_name
           high_tail low_tail = Inl KeyError \<and>
         ((\<exists>n \<in> set (columns resampled_df). \<not> event_filtered dataframe threshold n) \<longrightarrow>
          classify_neurons_parametrically dataframe resampled_df real_d_df behavior_name
            high_tail low_tail threshold = Inl KeyError))
    \<and> (index resampled_df \<noteq> [] \<and> get_column resampled_df neuron = Inr null_col \<and>
        get_column real_d_df neuron = Inr [d] \<longrightarrow>
         compute_two_side_p_val resampled_df real_d_df neuron =
           Inr (real (length (filter (\<lambda>v. \<bar>v\<bar> \<ge> \<bar>d\<bar>) null_col)) /
                real (length (index resampled_df))))"
proof (intro conjI impI)
  assume c: "get_column real_d_df neuron = Inr [d]"
  show "loc_d real_d_df neuron = (if l = StrLabel ''d'' then Inr [d] else Inl KeyError)"
    by (rule loc_d_single_row [OF assms c])
  show "observed_first real_d_df neuron = Inr d"
    using c by (simp add: observed_first_def values_0_def)
next
  assume "l \<noteq> StrLabel ''d''"
  then show "two_tailed_neuron_classification resampled_df real_d_df neuron behavior_name
           high_tail low_tail = Inl KeyError"
    by (rule two_tailed_other_label [OF assms])
next
  assume "l \<noteq> StrLabel ''d''"
    and "\<exists>n \<in> set (columns resampled_df). \<not> event_filtered dataframe threshold n"
  then show "classify_neurons_parametrically dataframe resampled_df real_d_df behavior_name
            high_tail low_tail threshold = Inl KeyError"
    by (rule classify_parametrically_other_label [OF assms])
next
  assume a: "index resampled_df \<noteq> [] \<and> get_column resampled_df neuron = Inr null_col \<and>
        get_column real_d_df neuron = Inr [d]"
  then have "observed_first real_d_df neuron = Inr d"
    by (simp add: observed_first_def values_0_def)
  with a show "compute_two_side_p_val resampled_df real_d_df neuron =
           Inr (real (length (filter (\<lambda>v. \<bar>v\<bar> \<ge> \<bar>d\<bar>) null_col)) /
                real (length (index resampled_df)))"
    by (intro compute_two_side_p_val_eq) simp_all
qed


text \<open>The observed row carries the default integer label \<open>0\<close>.\<close>

theorem C10_observed_row_label_witness:
  "index (observed_AB (IntLabel 0) (-7)) = [IntLabel 0]
   \<and> IntLabel 0 \<noteq> StrLabel ''d''
   \<and> \<not> event_filtered activity_AB 2 ''A''
   \<and> two_tailed_neuron_classification null_AB (observed_AB (IntLabel 0) (-7)) ''A''
        ''open'' 95 5 = Inl KeyError
   \<and> classify_neurons_parametrically activity_AB null_AB (observed_AB (IntLabel 0) (-7))
        ''open'' 95 5 2 = Inl KeyError
   \<and> compute_two_side_p_val null_AB (observed_AB (IntLabel 0) (-7)) ''A'' = Inr (1 / 5)"
proof -
  let ?obs = "observed_AB (IntLabel 0) (-7)"
  have idx: "index ?obs = [IntLabel 0]"
    by (simp add: observed_AB_def)
  have neq: "IntLabel 0 \<noteq> StrLabel ''d''"
    by simp
  have A: "\<exists>n \<in> set (columns null_AB). \<not> event_filtered activity_AB 2 n"
    using activity_AB_filter(1) by (auto simp: null_AB_columns)
  have rows: "index null_AB \<noteq> []" and len: "length (index null_AB) = 5"
    by (simp_all add: null_AB_def)
  have col: "get_column null_AB ''A'' = Inr [5, -5, 1, -7, 2]"
    by (simp add: get_column_def null_AB_def)
  have obs: "get_column ?obs ''A'' = Inr [-7]"
    by (simp add: get_column_def observed_AB_def)
  note c10 = C10_observed_row_label [OF idx, of "''A''" "-7" null_AB "''open''" 95 5
      activity_AB 2 "[5, -5, 1, -7, 2]"]
  from c10 [THEN conjunct2, THEN conjunct1, THEN mp, OF neq]
  have t: "two_tailed_neuron_classification null_AB ?obs ''A'' ''open'' 95 5 = Inl KeyError"
    and "(\<exists>n \<in> set (columns null_AB). \<not> event_filtered activity_AB 2 n) \<longrightarrow>
      classify_neurons_parametrically activity_AB null_AB ?obs ''open'' 95 5 2 = Inl KeyError"
    by blast+
  with A have c: "classify_neurons_parametrically activity_AB null_AB ?obs ''open'' 95 5 2
      = Inl KeyError"
    by blast
  from c10 [THEN conjunct2, THEN conjunct2] rows col obs
  have "compute_two_side_p_val null_AB ?obs ''A'' =
      Inr (real (length (filter (\<lambda>v. \<bar>v\<bar> \<ge> \<bar>- 7 :: real\<bar>) [5, -5, 1, -7, 2])) /
           real (length (index null_AB)))"
    by blast
  then have p: "compute_two_side_p_val null_AB ?obs ''A'' = Inr (1 / 5)"
    by (simp add: len)
  from idx neq activity_AB_filter(1) t c p show ?thesis
    by (intro conjI)
qed

section \<open>Properties of the shuffle\<close>

lemma columns_permute_block [simp]:
  "columns (permute_block lo hi draw df) = columns df"
proof -
  have "map fst (map (\<lambda>(k, (name, vs)). if lo \<le> k \<and> k \<le> hi
            then (name, f vs) else (name, vs)) (enumerate n xs)) = map fst xs"
    for n f and xs :: "(string \<times> 'a option list) list"
    by (induction xs arbitrary: n) auto
  then show ?thesis
    by (simp add: columns_def permute_block_def)
qed

lemma index_permute_block [simp]:
  "index (permute_block lo hi draw df) = index df"
  by (simp add: permute_block_def)

lemma zip_names:
  "length xs = length ys \<Longrightarrow> map fst (map (\<lambda>((name, vs), v). (name, f vs v)) (zip xs ys)) = map fst xs"
  by (induction xs ys rule: list_induct2) auto

lemma set_row_append:
  assumes "length row = length (cols df)" and "l \<notin> set (index df)"
  shows "set_row df l row =
     Inr \<lparr>index = index df @ [l],
          cols = map (\<lambda>((name, vs), v). (name, vs @ [v])) (zip (cols df) row)\<rparr>"
  using assms by (simp add: set_row_def)

lemma row_at_append_old:
  assumes "length row = length (cols df)" and "\<forall>(name, vs) \<in> set (cols df). length vs = k"
    and "i < k"
  shows "row_at \<lparr>index = idx,
                 cols = map (\<lambda>((name, vs), v). (name, vs @ [v])) (zip (cols df) row)\<rparr> i
     = row_at df i"
proof -
  have "length xs = length ys \<Longrightarrow> \<forall>(name, vs) \<in> set xs. length vs = k \<Longrightarrow>
      map (\<lambda>(name, vs). vs ! i) (map (\<lambda>((name, vs), v). (name, vs @ [v])) (zip xs ys)) =
      map (\<lambda>(name, vs). vs ! i) xs"
    for xs :: "(string \<times> 'a list) list" and ys
    by (induction xs ys rule: list_induct2) (use assms(3) in \<open>auto simp: nth_append\<close>)
  from this [of "cols df" row] assms(1,2) show ?thesis
    by (simp add: row_at_def)
qed

lemma row_at_append_new:
  assumes "length row = length (cols df)" and "\<forall>(name, vs) \<in> set (cols df). length vs = k"
  shows "row_at \<lparr>index = idx,
                 cols = map (\<lambda>((name, vs), v). (name, vs @ [v])) (zip (cols df) row)\<rparr> k
     = row"
proof -
  have "length xs = length ys \<Longrightarrow> \<forall>(name, vs) \<in> set xs. length vs = k \<Longrightarrow>
      map (\<lambda>(name, vs). vs ! k) (map (\<lambda>((name, vs), v). (name, vs @ [v])) (zip xs ys)) = ys"
    for xs :: "(string \<times> 'a list) list" and ys
    by (induction xs ys rule: list_induct2) (auto simp: nth_append)
  from this [of "cols df" row] assms show ?thesis
    by (simp add: row_at_def)
qed

lemma shuffle_loop_result:
  assumes "col_slice (columns nb) first_col last_col = Inr (lo, hi)"
    and "\<forall>t. length (diff_rate t) = length (cols sdf)"
    and "rows_ok sdf k"
  shows "\<exists>sdf'. shuffle_loop diff_rate draws first_col last_col [k..<k + m] nb sdf =
           Inr (foldl (\<lambda>t i. permute_block lo hi (draws i) t) nb [k..<k + m], sdf') \<and>
         rows_ok sdf' (k + m) \<and> columns sdf' = columns sdf \<and>
         (\<forall>i < k. row_at sdf' i = row_at sdf i) \<and>
         (\<forall>i. k \<le> i \<and> i < k + m \<longrightarrow>
            row_at sdf' i =
              diff_rate (foldl (\<lambda>t i. permute_block lo hi (draws i) t) nb [k..<Suc i]))"
  using assms
proof (induction m arbitrary: k nb sdf)
  case 0
  then show ?case by auto
next
  case (Suc m)
  let ?step = "\<lambda>t i. permute_block lo hi (draws i) t"
  let ?nb1 = "permute_block lo hi (draws k) nb"
  let ?row = "diff_rate ?nb1"
  let ?sdf1 = "\<lparr>index = index sdf @ [IntLabel (int k)],
     cols = map (\<lambda>((name, vs), v). (name, vs @ [v])) (zip (cols sdf) ?row)\<rparr>"
  have len: "length ?row = length (cols sdf)"
    using Suc.prems(2) by simp
  have fresh: "IntLabel (int k) \<notin> set (index sdf)"
    using Suc.prems(3) by (auto simp: rows_ok_def)
  have colk: "\<forall>(name, vs) \<in> set (cols sdf). length vs = k"
    using Suc.prems(3) by (simp add: rows_ok_def)
  have set1: "set_row sdf (IntLabel (int k)) ?row = Inr ?sdf1"
    by (rule set_row_append [OF len fresh])
  have upt: "[k..<k + Suc m] = k # [Suc k..<Suc k + m]"
    by (simp add: upt_conv_Cons)
  have step: "shuffle_loop diff_rate draws first_col last_col [k..<k + Suc m] nb sdf =
      shuffle_loop diff_rate draws first_col last_col [Suc k..<Suc k + m] ?nb1 ?sdf1"
    unfolding upt by (simp add: Suc.prems(1) set1)
  have cols1: "columns ?sdf1 = columns sdf"
    unfolding columns_def by (simp del: map_map add: zip_names [OF len [symmetric]])
  have len1: "length (cols ?sdf1) = length (cols sdf)"
    using len by simp
  have ok1: "rows_ok ?sdf1 (Suc k)"
  proof -
    have "\<forall>(name, vs) \<in> set (cols ?sdf1). length vs = Suc k"
      using colk by (auto dest!: set_zip_leftD)
    moreover have "index ?sdf1 = map (\<lambda>i. IntLabel (int i)) [0..<Suc k]"
      using Suc.prems(3) by (simp add: rows_ok_def)
    ultimately show ?thesis
      by (simp add: rows_ok_def)
  qed
  have slice1: "col_slice (columns ?nb1) first_col last_col = Inr (lo, hi)"
    using Suc.prems(1) by simp
  have rate1: "\<forall>t. length (diff_rate t) = length (cols ?sdf1)"
    using Suc.prems(2) len1 by simp
  from Suc.IH [OF slice1 rate1 ok1] obtain sdf' where
    run: "shuffle_loop diff_rate draws first_col last_col [Suc k..<Suc k + m] ?nb1 ?sdf1 =
           Inr (foldl ?step ?nb1 [Suc k..<Suc k + m], sdf')"
    and ok: "rows_ok sdf' (Suc k + m)" and cols: "columns sdf' = columns ?sdf1"
    and old: "\<forall>i < Suc k. row_at sdf' i = row_at ?sdf1 i"
    and new: "\<forall>i. Suc k \<le> i \<and> i < Suc k + m \<longrightarrow>
            row_at sdf' i = diff_rate (foldl ?step ?nb1 [Suc k..<Suc i])"
    by blast
  have r_old: "row_at ?sdf1 i = row_at sdf i" if "i < k" for i
    by (rule row_at_append_old [OF len colk that])
  have r_new: "row_at ?sdf1 k = ?row"
    by (rule row_at_append_new [OF len colk])
  have a: "shuffle_loop diff_rate draws first_col last_col [k..<k + Suc m] nb sdf =
           Inr (foldl ?step nb [k..<k + Suc m], sdf')"
    unfolding step run unfolding upt by simp
  have b: "rows_ok sdf' (k + Suc m)"
    using ok by simp
  have c: "columns sdf' = columns sdf"
    using cols cols1 by simp
  have d: "\<forall>i < k. row_at sdf' i = row_at sdf i"
  proof (intro allI impI)
    fix i assume "i < k"
    with old r_old [of i] show "row_at sdf' i = row_at sdf i" by simp
  qed
  have e: "\<forall>i. k \<le> i \<and> i < k + Suc m \<longrightarrow> row_at sdf' i = diff_rate (foldl ?step nb [k..<Suc i])"
  proof (intro allI impI)
    fix i assume i: "k \<le> i \<and> i < k + Suc m"
    show "row_at sdf' i = diff_rate (foldl ?step nb [k..<Suc i])"
    proof (cases "i = k")
      case True
      with old r_new have "row_at sdf' i = ?row" by simp
      with True show ?thesis by simp
    next
      case False
      with i have "Suc k \<le> i \<and> i < Suc k + m" by simp
      with new have "row_at sdf' i = diff_rate (foldl ?step ?nb1 [Suc k..<Suc i])" by blast
      moreover have "[k..<Suc i] = k # [Suc k..<Suc i]"
        using i by (simp add: upt_conv_Cons)
      ultimately show ?thesis by simp
    qed
  qed
  show ?case
    by (intro exI [of _ sdf'] conjI a b c d e)
qed


lemma col_slice_total:
  assumes "first_col \<in> set names" and "last_col \<in> set names"
  shows "\<exists>lo hi. col_slice names first_col last_col = Inr (lo, hi)"
  using assms by (simp add: col_slice_def)

lemma shuffle_worker_result:
  assumes "columns neuron_activity_df \<noteq> []"
    and "set (columns neuron_activity_df) \<subseteq> set (columns neuron_and_behavior_df)"
    and "\<forall>t. length (compute_diff_rate t neuron_activity_df behavior1 behavior2) =
           length (columns neuron_activity_df)"
  shows "\<exists>lo hi shuffled_df.
           col_slice (columns neuron_and_behavior_df) (hd (columns neuron_activity_df))
             (last (columns neuron_activity_df)) = Inr (lo, hi) \<and>
           shuffle_worker compute_diff_rate draws num_of_experiments neuron_activity_df
             neuron_and_behavior_df behavior1 behavior2 = Inr shuffled_df \<and>
           rows_ok shuffled_df (nat num_of_experiments) \<and>
           columns shuffled_df = columns neuron_activity_df \<and>
           (\<forall>i < nat num_of_experiments.
              row_at shuffled_df i =
                compute_diff_rate (table_after lo hi draws neuron_and_behavior_df (Suc i))
                  neuron_activity_df behavior1 behavior2)"
proof -
  let ?names = "columns neuron_activity_df"
  let ?rate = "\<lambda>t. compute_diff_rate t neuron_activity_df behavior1 behavior2"
  let ?empty = "\<lparr>index = [], cols = map (\<lambda>n. (n, [] :: real list)) ?names\<rparr>"
  from assms(1) obtain first_col rest where names: "?names = first_col # rest"
    by (cases ?names) auto
  have "hd ?names \<in> set ?names" "last ?names \<in> set ?names"
    using assms(1) by simp_all
  with assms(2) have "hd ?names \<in> set (columns neuron_and_behavior_df)"
    "last ?names \<in> set (columns neuron_and_behavior_df)"
    by blast+
  from col_slice_total [OF this] obtain lo hi where
    slice: "col_slice (columns neuron_and_behavior_df) (hd ?names) (last ?names) = Inr (lo, hi)"
    by blast
  have rate: "\<forall>t. length (?rate t) = length (cols ?empty)"
    using assms(3) by simp
  have ok: "rows_ok ?empty 0"
    by (simp add: rows_ok_def)
  from shuffle_loop_result [OF slice rate ok, of draws "nat num_of_experiments"]
  obtain sdf where
    run: "shuffle_loop ?rate draws (hd ?names) (last ?names) [0..<nat num_of_experiments]
            neuron_and_behavior_df ?empty =
          Inr (foldl (\<lambda>t i. permute_block lo hi (draws i) t) neuron_and_behavior_df
                 [0..<nat num_of_experiments], sdf)"
    and ok': "rows_ok sdf (nat num_of_experiments)"
    and cols: "columns sdf = columns ?empty"
    and rows: "\<forall>i. 0 \<le> i \<and> i < 0 + nat num_of_experiments \<longrightarrow>
       row_at sdf i = ?rate (foldl (\<lambda>t i. permute_block lo hi (draws i) t)
                               neuron_and_behavior_df [0..<Suc i])"
    by auto
  have hd: "hd ?names = first_col"
    by (simp add: names)
  have w: "shuffle_worker compute_diff_rate draws num_of_experiments neuron_activity_df
             neuron_and_behavior_df behavior1 behavior2 = Inr sdf"
    using run unfolding shuffle_worker_def names [symmetric] hd [symmetric]
    by (simp add: names)
  have c: "columns sdf = ?names"
    using cols by (simp add: columns_def comp_def)
  have r: "\<forall>i < nat num_of_experiments. row_at sdf i =
       ?rate (table_after lo hi draws neuron_and_behavior_df (Suc i))"
    using rows by (simp add: table_after_def)
  show ?thesis
    by (intro exI [of _ lo] exI [of _ hi] exI [of _ sdf] conjI slice w ok' c r)
qed




lemma sum_list_constant:
  "\<forall>x \<in> set xs. f x = (c :: nat) \<Longrightarrow> sum_list (map f xs) = length xs * c"
  by (induction xs) auto

lemma concat_nth_uniform:
  "\<forall>xs \<in> set xss. length xs = m \<Longrightarrow> a < length xss \<Longrightarrow> i < m \<Longrightarrow>
   concat xss ! (a * m + i) = xss ! a ! i"
proof (induction xss arbitrary: a)
  case Nil
  then show ?case by simp
next
  case (Cons xs xss)
  show ?case
  proof (cases a)
    case 0
    with Cons.prems show ?thesis
      by (simp add: nth_append)
  next
    case (Suc a')
    with Cons.prems have "concat xss ! (a' * m + i) = xss ! a' ! i"
      by (intro Cons.IH) simp_all
    with Suc Cons.prems show ?thesis
      by (simp add: nth_append)
  qed
qed

lemma map_of_columns:
  "distinct (map fst xs) \<Longrightarrow>
   map (\<lambda>name. f (case map_of xs name of None \<Rightarrow> [] | Some vs \<Rightarrow> vs)) (map fst xs) =
   map (\<lambda>(name, vs). f vs) xs"
proof (induction xs)
  case Nil
  then show ?case by simp
next
  case (Cons x xs)
  obtain name vs where x: "x = (name, vs)"
    by (cases x)
  from Cons.prems x have fresh: "name \<notin> fst ` set xs" and d: "distinct (map fst xs)"
    by simp_all
  have "map (\<lambda>n. f (case map_of (x # xs) n of None \<Rightarrow> [] | Some vs \<Rightarrow> vs)) (map fst xs) =
      map (\<lambda>n. f (case map_of xs n of None \<Rightarrow> [] | Some vs \<Rightarrow> vs)) (map fst xs)"
    using fresh x by (intro map_cong) auto
  with Cons.IH [OF d] x show ?case
    by simp
qed

lemma column_length:
  assumes "rows_ok g m" and "name \<in> set (columns g)"
  shows "length (case map_of (cols g) name of None \<Rightarrow> [] | Some vs \<Rightarrow> vs) = m"
proof -
  from assms(2) have "map_of (cols g) name \<noteq> None"
    by (simp add: columns_def map_of_eq_None_iff)
  then obtain vs where vs: "map_of (cols g) name = Some vs"
    by blast
  then have "(name, vs) \<in> set (cols g)"
    by (rule map_of_SomeD)
  with assms(1) have "length vs = m"
    by (auto simp: rows_ok_def)
  with vs show ?thesis
    by simp
qed

lemma pd_concat_content:
  assumes "frames \<noteq> []" and "distinct names"
    and "\<forall>g \<in> set frames. rows_ok g m \<and> columns g = names"
  shows "\<exists>t. pd_concat frames = Inr t \<and>
     index t = map (\<lambda>i. IntLabel (int i)) [0..<length frames * m] \<and>
     columns t = names \<and>
     (\<forall>(name, vs) \<in> set (cols t). length vs = length frames * m) \<and>
     (\<forall>a < length frames. \<forall>i < m. row_at t (a * m + i) = row_at (frames ! a) i)"
proof -
  let ?col = "\<lambda>name g. case map_of (cols g) name of None \<Rightarrow> [] | Some vs \<Rightarrow> vs"
  let ?t = "\<lparr>index = map (\<lambda>i. IntLabel (int i))
                         [0..<sum_list (map (\<lambda>g. length (index g)) frames)],
             cols = map (\<lambda>name. (name, concat (map (?col name) frames))) names\<rparr>"
  from assms(1) obtain f rest where fr: "frames = f # rest"
    by (cases frames) auto
  with assms(3) have "columns f = names"
    by simp
  then have t: "pd_concat frames = Inr ?t"
    unfolding pd_concat_def fr by simp
  have "\<forall>g \<in> set frames. length (index g) = m"
    using assms(3) by (simp add: rows_ok_def)
  then have "sum_list (map (\<lambda>g. length (index g)) frames) = length frames * m"
    by (rule sum_list_constant)
  then have idx: "index ?t = map (\<lambda>i. IntLabel (int i)) [0..<length frames * m]"
    by simp
  have cols: "columns ?t = names"
    by (simp add: columns_def comp_def)
  have col_len: "length (?col name g) = m" if "name \<in> set names" "g \<in> set frames" for name g
    using that assms(3) by (intro column_length) auto
  have lens: "\<forall>(name, vs) \<in> set (cols ?t). length vs = length frames * m"
  proof -
    have "length (concat (map (?col name) frames)) = length frames * m"
      if "name \<in> set names" for name
    proof -
      have "\<forall>g \<in> set frames. length (?col name g) = m"
        using col_len [OF that] by blast
      then have "sum_list (map (\<lambda>g. length (?col name g)) frames) = length frames * m"
        by (rule sum_list_constant)
      then show ?thesis
        by (simp add: length_concat comp_def)
    qed
    then show ?thesis
      by auto
  qed
  have rows: "\<forall>a < length frames. \<forall>i < m. row_at ?t (a * m + i) = row_at (frames ! a) i"
  proof (intro allI impI)
    fix a i
    assume a: "a < length frames" and i: "i < m"
    let ?g = "frames ! a"
    from a have g: "?g \<in> set frames"
      by simp
    with assms(3) have names: "map fst (cols ?g) = names"
      by (simp add: columns_def)
    have cell: "concat (map (?col name) frames) ! (a * m + i) = ?col name ?g ! i"
      if "name \<in> set names" for name
    proof -
      have "\<forall>xs \<in> set (map (?col name) frames). length xs = m"
        using col_len [OF that] by auto
      from concat_nth_uniform [OF this _ i, of a] a show ?thesis
        by simp
    qed
    have "row_at ?t (a * m + i) = map (\<lambda>name. ?col name ?g ! i) names"
      using cell by (simp add: row_at_def comp_def)
    also have "\<dots> = map (\<lambda>name. (\<lambda>vs. vs ! i) (?col name ?g)) (map fst (cols ?g))"
      by (simp add: names)
    also have "\<dots> = map (\<lambda>(name, vs). vs ! i) (cols ?g)"
      using assms(2) names by (intro map_of_columns) simp
    finally show "row_at ?t (a * m + i) = row_at ?g i"
      by (simp add: row_at_def)
  qed
  show ?thesis
    by (intro exI [of _ ?t] conjI t idx cols lens rows)
qed


text \<open>
  C2. With \<open>W = cpu_count\<close> workers (\<open>W \<ge> 1\<close>) and a requested count \<open>R \<ge> 1\<close>,
  \<open>shuffle\<close> returns a table with exactly \<open>W * (R div W)\<close> rows, labelled
  \<open>0, 1, ...\<close>, whose columns are the neuron columns of the activity table, each with
  one cell per row. The table is the workers' tables one after another in the order of
  arrival: every worker contributes \<open>R div W\<close> rows, and row \<open>i\<close> of a worker is the
  rate of the combined table after the first \<open>i + 1\<close> permutations of that worker.
  It is assumed that the activity table has a column and distinct column names, all of
  them columns of the combined table, that the combined table is rectangular with the
  default index \<open>0, ..., n - 1\<close>, that every draw is a permutation of its row
  positions and that the rate function gives one value per neuron column (otherwise a
  worker dies and \<open>shuffle\<close> blocks).
\<close>

theorem C2_shuffle_row_count:
  assumes "0 < cpu_count" and "1 \<le> total_experiments"
    and "mset arrival = mset [0..<cpu_count]"
    and "columns neuron_activity_df \<noteq> []" and "distinct (columns neuron_activity_df)"
    and "set (columns neuron_activity_df) \<subseteq> set (columns neuron_and_behavior_df)"
    and "\<forall>t. length (compute_diff_rate t neuron_activity_df behavior1 behavior2) =
           length (columns neuron_activity_df)"
    and "index neuron_and_behavior_df = map (\<lambda>i. IntLabel (int i)) [0..<n]"
    and "\<forall>(name, vs) \<in> set (cols neuron_and_behavior_df). length vs = n"
    and "\<forall>w i. mset (draws w i) = mset [0..<n]"
  shows "\<exists>lo hi null_table.
           col_slice (columns neuron_and_behavior_df) (hd (columns neuron_activity_df))
             (last (columns neuron_activity_df)) = Inr (lo, hi) \<and>
           shuffle compute_diff_rate draws cpu_count arrival total_experiments
             neuron_and_behavior_df neuron_activity_df behavior1 behavior2
             = Some (Inr null_table) \<and>
           int (length (index null_table)) =
             int cpu_count * (total_experiments div int cpu_count) \<and>
           index null_table =
             map (\<lambda>i. IntLabel (int i))
               [0..<cpu_count * nat (total_experiments div int cpu_count)] \<and>
           columns null_table = columns neuron_activity_df \<and>
           (\<forall>(name, vs) \<in> set (cols null_table).
              length vs = cpu_count * nat (total_experiments div int cpu_count)) \<and>
           (\<forall>a < cpu_count. \<forall>i < nat (total_experiments div int cpu_count).
              row_at null_table (a * nat (total_experiments div int cpu_count) + i) =
                compute_diff_rate
                  (table_after lo hi (draws (arrival ! a)) neuron_and_behavior_df (Suc i))
                  neuron_activity_df behavior1 behavior2)"
proof -
  let ?per = "total_experiments div int cpu_count"
  let ?m = "nat ?per"
  let ?worker = "\<lambda>w. shuffle_worker compute_diff_rate (draws w) ?per neuron_activity_df
                      neuron_and_behavior_df behavior1 behavior2"
  let ?results = "map ?worker [0..<cpu_count]"
  let ?frames = "map (\<lambda>w. projr (?results ! w)) arrival"
  let ?names = "columns neuron_activity_df"
  have "hd ?names \<in> set ?names" "last ?names \<in> set ?names"
    using assms(4) by simp_all
  with assms(6) have "hd ?names \<in> set (columns neuron_and_behavior_df)"
    "last ?names \<in> set (columns neuron_and_behavior_df)"
    by blast+
  from col_slice_total [OF this] obtain lo hi where
    slice: "col_slice (columns neuron_and_behavior_df) (hd ?names) (last ?names) = Inr (lo, hi)"
    by blast
  have worker: "\<exists>sdf. ?worker w = Inr sdf \<and> rows_ok sdf ?m \<and> columns sdf = ?names \<and>
      (\<forall>i < ?m. row_at sdf i =
         compute_diff_rate (table_after lo hi (draws w) neuron_and_behavior_df (Suc i))
           neuron_activity_df behavior1 behavior2)" for w
    using shuffle_worker_result [of neuron_activity_df neuron_and_behavior_df
        compute_diff_rate behavior1 behavior2 "draws w" ?per, OF assms(4,6,7)] slice
    by auto
  have alive: "\<not> list_ex isl ?results"
  proof -
    have "\<not> isl (?worker w)" for w
      using worker [of w] by auto
    then show ?thesis
      by (simp add: list_ex_iff)
  qed
  have "set arrival = set [0..<cpu_count]"
    using assms(3) by (rule mset_eq_setD)
  then have in_range: "w < cpu_count" if "w \<in> set arrival" for w
    using that by simp
  have "length arrival = length [0..<cpu_count]"
    using assms(3) by (rule mset_eq_length)
  then have len: "length arrival = cpu_count"
    by simp
  with assms(1) have ne: "?frames \<noteq> []"
    by auto
  have frame: "?frames ! a = projr (?worker (arrival ! a))" if "a < cpu_count" for a
  proof -
    from that len have "arrival ! a \<in> set arrival"
      by simp
    from in_range [OF this] that len show ?thesis
      by simp
  qed
  have frames: "\<forall>g \<in> set ?frames. rows_ok g ?m \<and> columns g = ?names"
  proof
    fix g assume "g \<in> set ?frames"
    then obtain w where w: "w \<in> set arrival" and g: "g = projr (?results ! w)"
      by auto
    from in_range [OF w] have "?results ! w = ?worker w"
      by simp
    with worker [of w] g show "rows_ok g ?m \<and> columns g = ?names"
      by auto
  qed
  from pd_concat_content [OF ne assms(5) frames] obtain t where
    t: "pd_concat ?frames = Inr t"
    and idx: "index t = map (\<lambda>i. IntLabel (int i)) [0..<length ?frames * ?m]"
    and cols: "columns t = ?names"
    and lens: "\<forall>(name, vs) \<in> set (cols t). length vs = length ?frames * ?m"
    and rows: "\<forall>a < length ?frames. \<forall>i < ?m. row_at t (a * ?m + i) = row_at (?frames ! a) i"
    by blast
  have run: "shuffle compute_diff_rate draws cpu_count arrival total_experiments
             neuron_and_behavior_df neuron_activity_df behavior1 behavior2 = Some (Inr t)"
    using assms(1) alive t by (simp add: shuffle_def Let_def)
  have nonneg: "0 \<le> ?per"
    using assms(1,2) by (simp add: pos_imp_zdiv_nonneg_iff)
  have idx': "index t = map (\<lambda>i. IntLabel (int i)) [0..<cpu_count * ?m]"
    using idx len by simp
  then have "length (index t) = cpu_count * ?m"
    by simp
  with nonneg have count: "int (length (index t)) = int cpu_count * ?per"
    by simp
  have lens': "\<forall>(name, vs) \<in> set (cols t). length vs = cpu_count * ?m"
    using lens len by simp
  have rows': "\<forall>a < cpu_count. \<forall>i < ?m. row_at t (a * ?m + i) =
      compute_diff_rate (table_after lo hi (draws (arrival ! a)) neuron_and_behavior_df (Suc i))
        neuron_activity_df behavior1 behavior2"
  proof (intro allI impI)
    fix a i assume a: "a < cpu_count" and i: "i < ?m"
    from rows a i len have "row_at t (a * ?m + i) = row_at (?frames ! a) i"
      by simp
    also have "\<dots> = row_at (projr (?worker (arrival ! a))) i"
      by (simp only: frame [OF a])
    also have "\<dots> = compute_diff_rate
        (table_after lo hi (draws (arrival ! a)) neuron_and_behavior_df (Suc i))
        neuron_activity_df behavior1 behavior2"
      using worker [of "arrival ! a"] i by auto
    finally show "row_at t (a * ?m + i) = compute_diff_rate
        (table_after lo hi (draws (arrival ! a)) neuron_and_behavior_df (Suc i))
        neuron_activity_df behavior1 behavior2" .
  qed
  show ?thesis
    by (intro exI [of _ lo] exI [of _ hi] exI [of _ t] conjI slice run count idx' cols lens'
        rows')
qed


lemma upt_3: "[0..<3] = [0, 1, 2]"
  by (simp add: upt_rec numeral_3_eq_3)

lemma combined_A_shape:
  "index combined_A = map (\<lambda>i. IntLabel (int i)) [0..<3]"
  "\<forall>(name, vs) \<in> set (cols combined_A). length vs = 3"
  "columns combined_A = [''A'', ''open'']"
  unfolding upt_3 by (simp_all add: combined_A_def columns_def)

lemma activity_A_columns: "columns activity_A = [''A'']"
  by (simp add: activity_A_def columns_def)

lemma rotate_draw_permutation: "mset (rotate_draw i) = mset [0..<3]"
  unfolding upt_3 by (simp add: rotate_draw_def)

lemma first_cell_rate_length:
  "\<forall>t. length (first_cell_rate t activity_A ''open'' ''closed'') = length (columns activity_A)"
  by (simp add: first_cell_rate_def)

text \<open>Four workers and ten requested resamples give eight rows; the fourth row is
  the second row of the worker whose result arrived second.\<close>

theorem C2_shuffle_row_count_witness:
  "mset [2, 0, 3, 1] = mset [0..<4]
   \<and> index combined_A = map (\<lambda>i. IntLabel (int i)) [0..<3]
   \<and> columns activity_A = [''A'']
   \<and> (\<exists>lo hi null_table.
         col_slice (columns combined_A) (hd (columns activity_A)) (last (columns activity_A))
           = Inr (lo, hi)
         \<and> shuffle first_cell_rate (\<lambda>w. rotate_draw) 4 [2, 0, 3, 1] 10 combined_A activity_A
             ''open'' ''closed'' = Some (Inr null_table)
         \<and> int (length (index null_table)) = 8
         \<and> columns null_table = [''A'']
         \<and> row_at null_table 3 =
             first_cell_rate (table_after lo hi rotate_draw combined_A 2) activity_A
               ''open'' ''closed'')"
proof -
  have upt: "[0..<4] = [0, 1, 2, 3]"
    by (simp add: upt_rec)
  have arrival: "mset [2, 0, 3, 1] = mset [0..<(4 :: nat)]"
    unfolding upt by simp
  have ne: "columns activity_A \<noteq> []" and dist: "distinct (columns activity_A)"
    by (simp_all add: activity_A_columns)
  have sub: "set (columns activity_A) \<subseteq> set (columns combined_A)"
    by (simp add: activity_A_columns combined_A_shape(3))
  have draws: "\<forall>w i. mset ((\<lambda>w. rotate_draw) w i) = mset [0..<3]"
    by (simp add: rotate_draw_permutation)
  have w: "(0 :: nat) < 4" and r: "(1 :: int) \<le> 10"
    by simp_all
  have per: "nat (10 div int 4) = 2"
    by simp
  from C2_shuffle_row_count [of 4 10 "[2, 0, 3, 1]" activity_A combined_A first_cell_rate
      "''open''" "''closed''" 3 "\<lambda>w. rotate_draw", OF w r arrival ne dist sub
      first_cell_rate_length combined_A_shape(1) combined_A_shape(2) draws]
  obtain lo hi null_table where
    slice: "col_slice (columns combined_A) (hd (columns activity_A))
       (last (columns activity_A)) = Inr (lo, hi)"
    and run: "shuffle first_cell_rate (\<lambda>w. rotate_draw) 4 [2, 0, 3, 1] 10 combined_A
       activity_A ''open'' ''closed'' = Some (Inr null_table)"
    and count: "int (length (index null_table)) = int 4 * (10 div int 4)"
    and cols: "columns null_table = columns activity_A"
    and rows: "\<forall>a < 4. \<forall>i < nat (10 div int 4).
       row_at null_table (a * nat (10 div int 4) + i) =
         first_cell_rate (table_after lo hi rotate_draw combined_A (Suc i)) activity_A
           ''open'' ''closed''"
    by (elim exE conjE)
  have "(1 :: nat) < 4" "(1 :: nat) < nat (10 div int 4)"
    by simp_all
  from rows [rule_format, OF this]
  have "row_at null_table (1 * nat (10 div int 4) + 1) =
      first_cell_rate (table_after lo hi rotate_draw combined_A (Suc 1)) activity_A
        ''open'' ''closed''" .
  then have row: "row_at null_table 3 =
      first_cell_rate (table_after lo hi rotate_draw combined_A 2) activity_A
        ''open'' ''closed''"
    by (simp add: per numeral_2_eq_2 numeral_3_eq_3)
  from count have count': "int (length (index null_table)) = 8"
    by simp
  from cols have cols': "columns null_table = [''A'']"
    by (simp add: activity_A_columns)
  from slice run count' cols' row have "\<exists>lo hi null_table.
         col_slice (columns combined_A) (hd (columns activity_A)) (last (columns activity_A))
           = Inr (lo, hi)
         \<and> shuffle first_cell_rate (\<lambda>w. rotate_draw) 4 [2, 0, 3, 1] 10 combined_A activity_A
             ''open'' ''closed'' = Some (Inr null_table)
         \<and> int (length (index null_table)) = 8
         \<and> columns null_table = [''A'']
         \<and> row_at null_table 3 =
             first_cell_rate (table_after lo hi rotate_draw combined_A 2) activity_A
               ''open'' ''closed''"
    by (intro exI conjI)
  with arrival combined_A_shape(1) activity_A_columns show ?thesis
    by (intro conjI)
qed




























end
